theory Spec2Isabelle
  imports Main "HOL-Library.AList"
begin

unbundle bit_operations_syntax

section \<open>Python strings\<close>

text \<open>
  A Python \<^verbatim>\<open>str\<close> is modelled as a \<^typ>\<open>string\<close>, one \<^typ>\<open>char\<close> per code
  point. A \<^typ>\<open>char\<close> has 256 values, so the model covers the code points below 256
  (ASCII and Latin-1); on these the string methods below agree with Python 3.
\<close>

text \<open>\<^verbatim>\<open>string.whitespace\<close>: space, tab, line feed, carriage return, VT, FF.\<close>

definition whitespace :: "char list" where
  "whitespace = [CHR '' '', CHR 0x09, CHR 0x0A, CHR 0x0D, CHR 0x0B, CHR 0x0C]"

text \<open>The ten characters that \<^verbatim>\<open>int()\<close> reads as decimal digits.\<close>

definition is_decimal_char :: "char \<Rightarrow> bool" where
  "is_decimal_char c = (c \<in> set ''0123456789'')"

text \<open>
  \<^verbatim>\<open>str.isdigit\<close> holds of a non-empty string whose characters all have the Unicode
  property Digit. Below 256 these are the ten decimal digits and the superscripts
  two, three and one (code points B2, B3 and B9).
\<close>

definition isdigit_char :: "char \<Rightarrow> bool" where
  "isdigit_char c = (is_decimal_char c \<or> c \<in> set [CHR 0xB2, CHR 0xB3, CHR 0xB9])"

definition isdigit :: "string \<Rightarrow> bool" where
  "isdigit s = (s \<noteq> [] \<and> list_all isdigit_char s)"

datatype py_exception = ValueError string | KeyError string | TypeError | OverflowError

definition digit_value :: "char \<Rightarrow> nat" where
  "digit_value c = of_char c - 48"

text \<open>
  \<^verbatim>\<open>int(s)\<close> on the strings the sources pass to it, which have passed
  \<^verbatim>\<open>s.isdigit()\<close>: the value in base ten when every character is a decimal digit
  and there are no more digits than the interpreter converts, and ValueError otherwise.
  A superscript digit is no literal, and CPython (3.11 and later) refuses a decimal
  literal of more than \<^verbatim>\<open>sys.int_info.default_max_str_digits\<close> = 4300 digits,
  leading zeros counted.
\<close>

definition int_max_str_digits :: nat where
  "int_max_str_digits = 4300"

definition decimal_string :: "string \<Rightarrow> bool" where
  "decimal_string s = (s \<noteq> [] \<and> list_all is_decimal_char s)"

definition decimal_value :: "string \<Rightarrow> nat" where
  "decimal_value s = foldl (\<lambda>n c. 10 * n + digit_value c) 0 s"

definition py_int :: "string \<Rightarrow> py_exception + nat" where
  "py_int s = (if decimal_string s \<and> length s \<le> int_max_str_digits
               then Inr (decimal_value s) else Inl (ValueError s))"

text \<open>\<^verbatim>\<open>str.lower\<close>, character by character (below 256 no character changes length).\<close>

definition lower_char :: "char \<Rightarrow> char" where
  "lower_char c =
     (let n = (of_char c :: nat)
      in if (65 \<le> n \<and> n \<le> 90) \<or> (192 \<le> n \<and> n \<le> 222 \<and> n \<noteq> 215)
         then char_of (n + 32) else c)"

definition lower :: "string \<Rightarrow> string" where
  "lower s = map lower_char s"

text \<open>
  \<^verbatim>\<open>s.find(c, start)\<close> for a one-character \<^verbatim>\<open>c\<close>: the least index at or after
  \<^verbatim>\<open>start\<close> that holds \<^verbatim>\<open>c\<close>, or -1. A negative \<^verbatim>\<open>start\<close> counts from the end.
\<close>

fun index_from :: "char \<Rightarrow> string \<Rightarrow> nat \<Rightarrow> int" where
  "index_from c [] i = - 1"
| "index_from c (x # xs) i = (if x = c then int i else index_from c xs (Suc i))"

definition py_find :: "string \<Rightarrow> char \<Rightarrow> int \<Rightarrow> int" where
  "py_find s c start =
     (let k = (if start < 0 then nat (max 0 (int (length s) + start)) else nat start)
      in index_from c (drop k s) k)"

text \<open>The slice \<^verbatim>\<open>s[i:j]\<close> for indexes that are not negative.\<close>

definition slice :: "string \<Rightarrow> nat \<Rightarrow> nat \<Rightarrow> string" where
  "slice s i j = drop i (take j s)"

text \<open>\<^verbatim>\<open>s.split(sep)\<close> for a one-character separator: never the empty list.\<close>

fun py_split :: "char \<Rightarrow> string \<Rightarrow> string list" where
  "py_split sep [] = [[]]"
| "py_split sep (c # cs) =
     (if c = sep then [] # py_split sep cs
      else (case py_split sep cs of
              [] \<Rightarrow> [[c]]
            | w # ws \<Rightarrow> (c # w) # ws))"

text \<open>\<^verbatim>\<open>s.replace(c, "")\<close> for a one-character \<^verbatim>\<open>c\<close>.\<close>

definition remove_char :: "char \<Rightarrow> string \<Rightarrow> string" where
  "remove_char c s = filter (\<lambda>x. x \<noteq> c) s"

text \<open>
  Iterating over a file opened in text mode: universal newlines turn CR LF and a
  lone CR into LF, and every line keeps its terminating LF.
\<close>

fun universal_newlines :: "string \<Rightarrow> string" where
  "universal_newlines [] = []"
| "universal_newlines [c] = (if c = CHR 0x0D then [CHR 0x0A] else [c])"
| "universal_newlines (c # d # ds) =
     (if c = CHR 0x0D \<and> d = CHR 0x0A then CHR 0x0A # universal_newlines ds
      else if c = CHR 0x0D then CHR 0x0A # universal_newlines (d # ds)
      else c # universal_newlines (d # ds))"

fun split_lines :: "string \<Rightarrow> string \<Rightarrow> string list" where
  "split_lines cur [] = (if cur = [] then [] else [cur])"
| "split_lines cur (c # cs) =
     (if c = CHR 0x0A then (cur @ [c]) # split_lines [] cs
      else split_lines (cur @ [c]) cs)"

definition file_lines :: "string \<Rightarrow> string list" where
  "file_lines text = split_lines [] (universal_newlines text)"


section \<open>The script reader (script\_reader.py)\<close>

text \<open>
  \<^verbatim>\<open>ScriptReader._contains_prefix\<close>: false when the prefix is longer than the line
  or the line is empty, otherwise the characters are compared index by index.
\<close>

definition contains_prefix :: "string \<Rightarrow> string \<Rightarrow> bool" where
  "contains_prefix pre line =
     (if length pre > length line \<or> length line = 0 then False
      else list_all (\<lambda>i. pre ! i = line ! i) [0 ..< length pre])"

text \<open>
  \<^verbatim>\<open>ScriptReader._remove_obsolete_characters\<close>. The loop runs over the indexes of the
  line; \<open>prev\<close> is the character at index \<open>i - 1\<close>, and \<open>None\<close> at index 0, so the
  source's test \<^verbatim>\<open>i != 0 and line[i - 1] != '\\'\<close> reads
  \<open>prev \<noteq> None \<and> prev \<noteq> Some backslash\<close>. The flag is switched before the
  character is kept or dropped, as in the source.
\<close>

fun roc_loop :: "char \<Rightarrow> char list \<Rightarrow> char option \<Rightarrow> bool \<Rightarrow> string \<Rightarrow> string" where
  "roc_loop mark_char rm_chars prev found [] = []"
| "roc_loop mark_char rm_chars prev found (c # cs) =
     (let found' = (if c = mark_char \<and> prev \<noteq> None \<and> prev \<noteq> Some (CHR 0x5C)
                    then \<not> found else found)
      in (if found' \<or> (\<not> found' \<and> c \<notin> set rm_chars) then [c] else [])
         @ roc_loop mark_char rm_chars (Some c) found' cs)"

definition remove_obsolete_characters :: "char \<Rightarrow> char list \<Rightarrow> string \<Rightarrow> string" where
  "remove_obsolete_characters mark_char rm_chars line =
     roc_loop mark_char rm_chars None False line"

text \<open>
  A command is the triple (delay, command name, parameters). The table of scripts is
  a Python dict, which keeps its keys in insertion order: an association list with
  \<^const>\<open>AList.update\<close>, which replaces the value of a present key in place and puts
  a new key last.
\<close>

type_synonym command = "nat \<times> string \<times> string"
type_synonym script_table = "(string \<times> command list) list"

text \<open>
  The ways \<^verbatim>\<open>load_scripts\<close> ends without a table. The first five print a diagnostic
  and return \<^verbatim>\<open>None\<close>; the constructors carry what the diagnostic is formatted
  from. \<open>Uncaught\<close> is an exception that leaves \<^verbatim>\<open>load_scripts\<close>.
\<close>

datatype load_error =
    NotAFile
  | NoName nat
  | DuplicateName string
  | InvalidSplit int int int int string
  | DelayNotInteger string
  | Uncaught py_exception

type_synonym reader_state = "script_table \<times> string"

text \<open>
  The body of the loop of \<^verbatim>\<open>load_scripts\<close> for one line: the state is the dict
  \<^verbatim>\<open>scripts\<close> and the current script name \<^verbatim>\<open>s_name\<close> (empty when no script is
  open).
\<close>

definition process_line :: "reader_state \<Rightarrow> nat \<times> string \<Rightarrow> load_error + reader_state" where
  "process_line st nl =
     (let (scripts, s_name) = st;
          (line_n, line) = nl;
          temp = remove_obsolete_characters (CHR 0x22) whitespace line
      in if s_name = [] then
           (if contains_prefix ''---'' temp then
              (if length temp < 4 then Inl (NoName line_n)
               else let s_name = drop 3 temp
                    in if s_name \<in> set (map fst scripts) then Inl (DuplicateName s_name)
                       else Inr (AList.update s_name [] scripts, s_name))
            else Inr (scripts, s_name))
         else
           (if length temp = 0 \<or> hd temp \<in> set ''#%'' then Inr (scripts, s_name)
            else if contains_prefix ''---'' temp then Inr (scripts, [])
            else
              let first_split = py_find temp (CHR '','') 0;
                  second_split = py_find temp (CHR '','') (first_split + 1);
                  first_param = py_find temp (CHR 0x22) (second_split + 1);
                  second_param = py_find temp (CHR 0x22) (first_param + 1)
              in if first_split \<le> 0 \<or> second_split \<le> 0 \<or> first_param \<le> 0
                    \<or> second_param \<le> 0 \<or> second_split \<le> first_split
                    \<or> first_param \<le> second_split \<or> second_param \<le> first_param
                 then Inl (InvalidSplit first_split second_split first_param second_param temp)
                 else
                   let delay_str = slice temp 0 (nat first_split);
                       cmd_str = slice temp (nat (first_split + 1)) (nat second_split);
                       param_str = slice temp (nat (first_param + 1)) (nat second_param)
                   in if \<not> isdigit delay_str then Inl (DelayNotInteger delay_str)
                      else (case py_int delay_str of
                              Inl e \<Rightarrow> Inl (Uncaught e)
                            | Inr delay \<Rightarrow>
                                (case map_of scripts s_name of
                                   None \<Rightarrow> Inl (Uncaught (KeyError s_name))
                                 | Some cmds \<Rightarrow>
                                     Inr (AList.update s_name
                                            (cmds @ [(delay, cmd_str, param_str)]) scripts,
                                          s_name)))))"

text \<open>The loop over the lines, numbered from \<open>n\<close>; the first error ends it.\<close>

fun load_lines :: "reader_state \<Rightarrow> nat \<Rightarrow> string list \<Rightarrow> load_error + reader_state" where
  "load_lines st n [] = Inr st"
| "load_lines st n (l # ls) =
     (case process_line st (n, l) of
        Inl e \<Rightarrow> Inl e
      | Inr st' \<Rightarrow> load_lines st' (Suc n) ls)"

text \<open>\<^verbatim>\<open>load_scripts\<close> on the text of an existing file.\<close>

definition load_text :: "string \<Rightarrow> load_error + script_table" where
  "load_text text = map_sum id fst (load_lines ([], []) 1 (file_lines text))"

text \<open>
  \<^verbatim>\<open>ScriptReader.load_scripts\<close>; the file system maps the name of each regular
  file to its text.
\<close>

definition load_scripts :: "(string \<rightharpoonup> string) \<Rightarrow> string \<Rightarrow> load_error + script_table" where
  "load_scripts fs filename =
     (case fs filename of
        None \<Rightarrow> Inl NotAFile
      | Some text \<Rightarrow> load_text text)"


section \<open>The input backend (winkeys.py)\<close>

text \<open>
  The operating system is modelled by what the module does to it: \<open>events\<close> lists, in
  order, every structure handed to \<^verbatim>\<open>SendInput\<close> and every sleep, and \<open>stderr\<close>
  the diagnostics printed. The four screen fields are the module's globals, set
  from the primary monitor by \<^verbatim>\<open>refresh_monitor_size\<close>.

  A keyboard input carries \<^verbatim>\<open>wVk\<close> and \<^verbatim>\<open>dwFlags\<close>, a mouse input \<^verbatim>\<open>dx\<close>, \<^verbatim>\<open>dy\<close>
  and \<^verbatim>\<open>dwFlags\<close>; the fields the sources leave at zero are left out. A sleep
  carries its length in milliseconds, the number the sources divide by 1000 for
  \<^verbatim>\<open>time.sleep\<close>.
\<close>

datatype event =
    KeyboardInput nat nat
  | MouseInput int int nat
  | Sleep nat

text \<open>One constructor for each diagnostic the sources print, with its format arguments.\<close>

datatype diagnostic =
    CouldNotWrite string string
  | MoveNotInteger string string
  | InvalidButtonHold string
  | InvalidButtonRelease string
  | CommandDoesNotExist string
  | WrongParameterCount string nat nat
  | NoScriptLoaded string

record world =
  screen_width_px :: int
  screen_height_px :: int
  screen_x_multiplier :: int
  screen_y_multiplier :: int
  events :: "event list"
  stderr :: "diagnostic list"

datatype mouse_key = RIGHT_BUTTON | LEFT_BUTTON | MIDDLE_BUTTON

definition timeout :: nat where "timeout = 5"

definition KEY_EVENT_RELEASE :: nat where "KEY_EVENT_RELEASE = 0x0002"
definition MOUSE_EVENT_MOVE :: nat where "MOUSE_EVENT_MOVE = 0x0001"
definition MOUSE_EVENT_ABSOLUTE :: nat where "MOUSE_EVENT_ABSOLUTE = 0x8000"
definition MOUSE_EVENT_LEFT_PRESS :: nat where "MOUSE_EVENT_LEFT_PRESS = 0x0002"
definition MOUSE_EVENT_LEFT_RELEASE :: nat where "MOUSE_EVENT_LEFT_RELEASE = 0x0004"
definition MOUSE_EVENT_RIGHT_PRESS :: nat where "MOUSE_EVENT_RIGHT_PRESS = 0x0008"
definition MOUSE_EVENT_RIGHT_RELEASE :: nat where "MOUSE_EVENT_RIGHT_RELEASE = 0x0010"
definition MOUSE_EVENT_MIDDLE_PRESS :: nat where "MOUSE_EVENT_MIDDLE_PRESS = 0x0020"
definition MOUSE_EVENT_MIDDLE_RELEASE :: nat where "MOUSE_EVENT_MIDDLE_RELEASE = 0x0040"

text \<open>
  \<^verbatim>\<open>_add_sequence_keys\<close> assigns consecutive codes from \<open>start\<close> to the keys; like
  every assignment to a dict, a later one replaces an earlier one for the same key.
\<close>

definition add_sequence_keys :: "(string \<times> nat) list \<Rightarrow> string list \<Rightarrow> nat \<Rightarrow> (string \<times> nat) list" where
  "add_sequence_keys key_dict keys start =
     fold (\<lambda>(key, value). AList.update key value)
       (zip keys [start ..< start + length keys]) key_dict"

text \<open>Iterating over a \<^verbatim>\<open>str\<close> gives its characters as strings of length one.\<close>

definition chars_of :: "string \<Rightarrow> string list" where
  "chars_of s = map (\<lambda>c. [c]) s"

definition function_keys :: "string list" where
  "function_keys =
     [''F1'', ''F2'', ''F3'', ''F4'', ''F5'', ''F6'', ''F7'', ''F8'', ''F9'', ''F10'',
      ''F11'', ''F12'', ''F13'', ''F14'', ''F15'', ''F16'', ''F17'', ''F18'',
      ''F19'', ''F20'', ''F21'', ''F22'', ''F23'', ''F24'']"

definition special_keys :: "(string \<times> nat) list" where
  "special_keys =
     [(''backspace'', 0x08), (''tab'', 0x09), (''enter'', 0x0D), (''shift'', 0x10),
      (''ctrl'', 0x11), (''alt'', 0x12), (''pause'', 0x13), (''caps'', 0x14),
      (''esc'', 0x1B), (''space'', 0x20), (''page-up'', 0x21), (''page-down'', 0x22),
      (''end'', 0x23), (''home'', 0x24), (''left'', 0x25), (''up'', 0x26),
      (''right'', 0x27), (''down'', 0x28), (''select'', 0x29), (''print'', 0x2A),
      (''execute'', 0x2B), (''prtscn'', 0x2C), (''insert'', 0x2D), (''delete'', 0x2E),
      (''win'', 0x5B), (''vol-mute'', 0xAD), (''vol-down'', 0xAE), (''vol-up'', 0xAF),
      (''media-next'', 0xB0), (''media-prev'', 0xB1), (''media-stop'', 0xB2),
      (''media_pp'', 0xB3)]"

definition win_key :: "(string \<times> nat) list" where
  "win_key =
     fold (\<lambda>(key, value). AList.update key value) special_keys
       (add_sequence_keys
          (add_sequence_keys
             (add_sequence_keys
                (add_sequence_keys [] (chars_of ''0123456789'') 0x30)
                (chars_of ''abcdefghijklmnopqrstuvwxyz'') 0x41)
             (chars_of ''ABCDEFGHIJKLMNOPQRSTUVWXYZ'') 0x41)
          function_keys 0x70)"

definition get_hex_code :: "string \<Rightarrow> nat option" where
  "get_hex_code key = map_of win_key key"

definition send_input :: "event \<Rightarrow> world \<Rightarrow> world" where
  "send_input c_input w = w\<lparr>events := events w @ [c_input]\<rparr>"

text \<open>
  A sleep that \<^verbatim>\<open>time.sleep\<close> accepts. \<^verbatim>\<open>_sleep\<close> of winkeys.py is called with
  \<^verbatim>\<open>timeout\<close> only, which is 5.
\<close>

definition sleep :: "nat \<Rightarrow> world \<Rightarrow> world" where
  "sleep ms w = w\<lparr>events := events w @ [Sleep ms]\<rparr>"

text \<open>
  \<^verbatim>\<open>sleep(ms / 1000)\<close> for any number of milliseconds. \<^verbatim>\<open>time.sleep\<close> turns the
  seconds into a signed 64-bit count of nanoseconds and raises OverflowError when
  they do not fit, that is from 9223372036855 milliseconds on; far above that, the
  division of the integer by 1000 raises OverflowError itself, its result being too
  large for a float. So every length above the bound raises OverflowError, and
  nothing is slept.
\<close>

definition max_sleep_ms :: nat where
  "max_sleep_ms = 9223372036854"

definition time_sleep :: "nat \<Rightarrow> world \<Rightarrow> py_exception + world" where
  "time_sleep ms w = (if max_sleep_ms < ms then Inl OverflowError else Inr (sleep ms w))"

definition print_stderr :: "diagnostic \<Rightarrow> world \<Rightarrow> world" where
  "print_stderr d w = w\<lparr>stderr := stderr w @ [d]\<rparr>"

definition mouse_move :: "int \<Rightarrow> int \<Rightarrow> bool \<Rightarrow> world \<Rightarrow> bool \<times> world" where
  "mouse_move x y relative w =
     (if x < 0 \<or> x > screen_width_px w \<or> y < 0 \<or> y > screen_height_px w then (False, w)
      else
        let flags = (if \<not> relative then MOUSE_EVENT_MOVE OR MOUSE_EVENT_ABSOLUTE
                     else MOUSE_EVENT_MOVE)
        in (True, send_input (MouseInput (x * screen_x_multiplier w)
                                (y * screen_y_multiplier w) flags) w))"

fun mouse_hold :: "mouse_key \<Rightarrow> world \<Rightarrow> bool \<times> world" where
  "mouse_hold LEFT_BUTTON w = (True, send_input (MouseInput 0 0 MOUSE_EVENT_LEFT_PRESS) w)"
| "mouse_hold RIGHT_BUTTON w = (True, send_input (MouseInput 0 0 MOUSE_EVENT_RIGHT_PRESS) w)"
| "mouse_hold MIDDLE_BUTTON w = (True, send_input (MouseInput 0 0 MOUSE_EVENT_MIDDLE_PRESS) w)"

fun mouse_release :: "mouse_key \<Rightarrow> world \<Rightarrow> bool \<times> world" where
  "mouse_release LEFT_BUTTON w = (True, send_input (MouseInput 0 0 MOUSE_EVENT_LEFT_RELEASE) w)"
| "mouse_release RIGHT_BUTTON w = (True, send_input (MouseInput 0 0 MOUSE_EVENT_RIGHT_RELEASE) w)"
| "mouse_release MIDDLE_BUTTON w = (True, send_input (MouseInput 0 0 MOUSE_EVENT_MIDDLE_RELEASE) w)"

definition keyboard_hold :: "nat \<Rightarrow> world \<Rightarrow> world" where
  "keyboard_hold key_code w = send_input (KeyboardInput key_code 0) w"

definition keyboard_release :: "nat \<Rightarrow> world \<Rightarrow> world" where
  "keyboard_release key_code w = send_input (KeyboardInput key_code KEY_EVENT_RELEASE) w"

definition keyboard_press :: "string \<Rightarrow> world \<Rightarrow> bool \<times> world" where
  "keyboard_press key w =
     (case get_hex_code key of
        None \<Rightarrow> (False, w)
      | Some key_code \<Rightarrow>
          (True, keyboard_release key_code (sleep timeout (keyboard_hold key_code w))))"

text \<open>
  The first loop of \<^verbatim>\<open>keyboard_press_combo\<close>: \<open>None\<close> is its \<^verbatim>\<open>return False\<close>,
  otherwise the key codes in the order of the keys.
\<close>

fun resolve_keys :: "string list \<Rightarrow> nat set \<Rightarrow> nat list \<Rightarrow> nat list option" where
  "resolve_keys [] handled_keys key_codes = Some key_codes"
| "resolve_keys (key # keys) handled_keys key_codes =
     (case get_hex_code key of
        None \<Rightarrow> None
      | Some key_code \<Rightarrow>
          if key_code \<in> handled_keys then None
          else resolve_keys keys (insert key_code handled_keys) (key_codes @ [key_code]))"

definition keyboard_press_combo :: "string \<Rightarrow> world \<Rightarrow> bool \<times> world" where
  "keyboard_press_combo key_set w =
     (let keys = py_split (CHR ''+'') (remove_char (CHR '' '') key_set)
      in case resolve_keys keys {} [] of
           None \<Rightarrow> (False, w)
         | Some key_codes \<Rightarrow>
             (True, fold keyboard_release (rev key_codes)
                      (sleep timeout (fold keyboard_hold key_codes w))))"


section \<open>The handlers (execution\_api.py)\<close>

text \<open>
  What a handler gives back: a Python value (\<^verbatim>\<open>True\<close>, \<^verbatim>\<open>False\<close> or \<^verbatim>\<open>None\<close>) or
  an exception, and the world after it.
\<close>

datatype pyval = PyBool bool | PyNone

type_synonym handler_result = "(py_exception + pyval) \<times> world"

definition press :: "string \<Rightarrow> world \<Rightarrow> handler_result" where
  "press sequence w =
     (let (ok, w') = keyboard_press_combo sequence w in (Inr (PyBool ok), w'))"

fun write_loop :: "string \<Rightarrow> string \<Rightarrow> world \<Rightarrow> bool \<times> world" where
  "write_loop sequence [] w = (True, w)"
| "write_loop sequence (c # cs) w =
     (case keyboard_press [c] w of
        (False, w') \<Rightarrow> (False, print_stderr (CouldNotWrite [c] sequence) w')
      | (True, w') \<Rightarrow> write_loop sequence cs w')"

definition "write" :: "string \<Rightarrow> world \<Rightarrow> handler_result" where
  "write sequence w =
     (let (ok, w') = write_loop sequence sequence w in (Inr (PyBool ok), w'))"

definition move :: "string \<Rightarrow> string \<Rightarrow> world \<Rightarrow> handler_result" where
  "move x y w =
     (if \<not> isdigit x \<or> \<not> isdigit y then (Inr PyNone, print_stderr (MoveNotInteger x y) w)
      else (case py_int x of
              Inl e \<Rightarrow> (Inl e, w)
            | Inr xi \<Rightarrow>
                (case py_int y of
                   Inl e \<Rightarrow> (Inl e, w)
                 | Inr yi \<Rightarrow>
                     (let (ok, w') = mouse_move (int xi) (int yi) False w
                      in (Inr (PyBool ok), w')))))"

definition button_of :: "string \<Rightarrow> mouse_key option" where
  "button_of key =
     (if lower key = ''right'' then Some RIGHT_BUTTON
      else if lower key = ''middle'' then Some MIDDLE_BUTTON
      else if lower key = ''left'' then Some LEFT_BUTTON
      else None)"

definition hold_mouse :: "string \<Rightarrow> world \<Rightarrow> handler_result" where
  "hold_mouse key w =
     (case button_of key of
        None \<Rightarrow> (Inr (PyBool False), print_stderr (InvalidButtonHold key) w)
      | Some key_code \<Rightarrow> (let (ok, w') = mouse_hold key_code w in (Inr (PyBool ok), w')))"

definition release_mouse :: "string \<Rightarrow> world \<Rightarrow> handler_result" where
  "release_mouse key w =
     (case button_of key of
        None \<Rightarrow> (Inr (PyBool False), print_stderr (InvalidButtonRelease key) w)
      | Some key_code \<Rightarrow> (let (ok, w') = mouse_release key_code w in (Inr (PyBool ok), w')))"


section \<open>The script executor (script\_executor.py)\<close>

text \<open>
  Calling a handler with the unpacked list of parameters; a list of another
  length than the handler's parameters is Python's TypeError.
\<close>

fun call1 :: "(string \<Rightarrow> world \<Rightarrow> handler_result) \<Rightarrow> string list \<Rightarrow> world \<Rightarrow> handler_result" where
  "call1 f [a] w = f a w"
| "call1 f ps w = (Inl TypeError, w)"

fun call2 :: "(string \<Rightarrow> string \<Rightarrow> world \<Rightarrow> handler_result) \<Rightarrow> string list \<Rightarrow> world \<Rightarrow> handler_result" where
  "call2 f [a, b] w = f a b w"
| "call2 f ps w = (Inl TypeError, w)"

text \<open>\<^verbatim>\<open>ScriptExecutor._commands\<close>: the number of parameters and the handler of each command.\<close>

definition commands :: "(string \<times> nat \<times> (string list \<Rightarrow> world \<Rightarrow> handler_result)) list" where
  "commands =
     [(''press'', 1, call1 press),
      (''write'', 1, call1 write),
      (''move'', 2, call2 move),
      (''hold_mouse'', 1, call1 hold_mouse),
      (''release_mouse'', 1, call1 release_mouse)]"

text \<open>
  \<^verbatim>\<open>ScriptExecutor._internal_execute\<close>. A command is a triple by its type, so the
  source's test of its length has no branch here. The value a handler returns is
  dropped; an exception that the handler or the sleep raises leaves the loop.
\<close>

fun internal_execute :: "command list \<Rightarrow> world \<Rightarrow> (py_exception + bool) \<times> world" where
  "internal_execute [] w = (Inr True, w)"
| "internal_execute ((delay, name, raw_params) # script) w =
     (case time_sleep delay w of
        Inl e \<Rightarrow> (Inl e, w)
      | Inr w1 \<Rightarrow>
          (case map_of commands name of
             None \<Rightarrow> (Inr False, print_stderr (CommandDoesNotExist name) w1)
           | Some (arity, handler) \<Rightarrow>
               (let parameters = py_split (CHR '','') raw_params
                in if length parameters \<noteq> arity
                   then (Inr False,
                         print_stderr (WrongParameterCount name arity (length parameters)) w1)
                   else (case handler parameters w1 of
                           (Inl e, w2) \<Rightarrow> (Inl e, w2)
                         | (Inr v, w2) \<Rightarrow> internal_execute script w2))))"

text \<open>
  \<^verbatim>\<open>ScriptExecutor.__init__\<close>: the field \<^verbatim>\<open>scripts\<close> is what \<^verbatim>\<open>load_scripts\<close>
  returned, a table or \<^verbatim>\<open>None\<close>.
\<close>

definition executor_init :: "(string \<rightharpoonup> string) \<Rightarrow> string \<Rightarrow> py_exception + script_table option" where
  "executor_init fs filename =
     (case load_scripts fs filename of
        Inr table \<Rightarrow> Inr (Some table)
      | Inl (Uncaught e) \<Rightarrow> Inl e
      | Inl _ \<Rightarrow> Inr None)"

text \<open>\<^verbatim>\<open>ScriptExecutor.execute\<close>, on the field \<^verbatim>\<open>scripts\<close> of the executor.\<close>

definition execute :: "script_table option \<Rightarrow> string \<Rightarrow> world \<Rightarrow> (py_exception + bool) \<times> world" where
  "execute scripts script_name w =
     (case scripts of
        None \<Rightarrow> (Inr False, print_stderr (NoScriptLoaded script_name) w)
      | Some table \<Rightarrow>
          if table = [] \<or> script_name \<notin> set (map fst table)
          then (Inr False, print_stderr (NoScriptLoaded script_name) w)
          else (case map_of table script_name of
                  None \<Rightarrow> (Inl (KeyError script_name), w)
                | Some script \<Rightarrow> internal_execute script w))"

text \<open>A world for the examples: a monitor of 1920 by 1080 pixels, nothing done yet.\<close>

definition example_world :: world where
  "example_world =
     \<lparr>screen_width_px = 1920, screen_height_px = 1080,
      screen_x_multiplier = 65535 div 1920, screen_y_multiplier = 65535 div 1080,
      events = [], stderr = []\<rparr>"

section \<open>Notions of the specification\<close>

text \<open>The line as \<^verbatim>\<open>load_scripts\<close> reads it: \<^verbatim>\<open>temp\<close>, stripped outside its quoted groups.\<close>

abbreviation temp_of :: "string \<Rightarrow> string" where
  "temp_of line \<equiv> remove_obsolete_characters (CHR 0x22) whitespace line"

text \<open>
  The shape \<^verbatim>\<open>DELAY,COMMAND,"PARAMS"\<close> of a body line, in the words of the
  specification: the first comma ends the delay field, the next comma ends the
  command field, the first quote after that comma opens the parameter field and the
  next quote closes it.
\<close>

definition command_line :: "string \<Rightarrow> string \<Rightarrow> string \<Rightarrow> string \<Rightarrow> bool" where
  "command_line temp delay_field command_field param_field =
     (\<exists>junk rest.
        temp = delay_field @ CHR '','' # command_field @ CHR '','' # junk
                 @ CHR 0x22 # param_field @ CHR 0x22 # rest
        \<and> CHR '','' \<notin> set delay_field \<and> CHR '','' \<notin> set command_field
        \<and> CHR 0x22 \<notin> set junk \<and> CHR 0x22 \<notin> set param_field)"

text \<open>
  The names of the scripts of a text, read off its stripped lines alone: a line with
  the prefix \<^verbatim>\<open>---\<close> opens a script named by the rest of the line when none is
  open, and closes the open one otherwise.
\<close>

fun script_names :: "bool \<Rightarrow> string list \<Rightarrow> string list" where
  "script_names opened [] = []"
| "script_names opened (t # ts) =
     (if contains_prefix ''---'' t
      then (if opened then script_names False ts else drop 3 t # script_names True ts)
      else script_names opened ts)"


text \<open>
  A command the executor does not reject: its name is in the registry and its
  parameters, split at the commas, are as many as the registry says.
\<close>

definition structurally_ok :: "command \<Rightarrow> bool" where
  "structurally_ok cmd =
     (case cmd of (delay, name, raw_params) \<Rightarrow>
        (case map_of commands name of
           None \<Rightarrow> False
         | Some (arity, handler) \<Rightarrow> length (py_split (CHR '','') raw_params) = arity))"

text \<open>The diagnostic of a rejected command.\<close>

definition rejection :: "command \<Rightarrow> diagnostic" where
  "rejection cmd =
     (case cmd of (delay, name, raw_params) \<Rightarrow>
        (case map_of commands name of
           None \<Rightarrow> CommandDoesNotExist name
         | Some (arity, handler) \<Rightarrow>
             WrongParameterCount name arity (length (py_split (CHR '','') raw_params))))"

text \<open>
  Running commands in the words of the specification, with no check of their
  structure: for each command in order, sleep its delay, then call its handler on the
  split parameters, and go on to the next command whatever the handler returns. An
  exception is not a return: a sleep too long for \<^verbatim>\<open>time.sleep\<close> or a handler
  that raises ends the run with the exception.
\<close>

fun run_commands :: "command list \<Rightarrow> world \<Rightarrow> (py_exception + unit) \<times> world" where
  "run_commands [] w = (Inr (), w)"
| "run_commands ((delay, name, raw_params) # script) w =
     (case time_sleep delay w of
        Inl e \<Rightarrow> (Inl e, w)
      | Inr w1 \<Rightarrow>
          (case map_of commands name of
             None \<Rightarrow> run_commands script w1
           | Some (arity, handler) \<Rightarrow>
               (case handler (py_split (CHR '','') raw_params) w1 of
                  (Inl e, w') \<Rightarrow> (Inl e, w')
                | (Inr v, w') \<Rightarrow> run_commands script w')))"

text \<open>The key codes of a list of key identifiers.\<close>

definition key_codes_of :: "string list \<Rightarrow> nat list" where
  "key_codes_of keys = map (\<lambda>key. the (get_hex_code key)) keys"

text \<open>A character that has a key code.\<close>

definition has_key :: "char \<Rightarrow> bool" where
  "has_key c = (get_hex_code [c] \<noteq> None)"

text \<open>What one press of a key sends: hold, the fixed wait, release.\<close>

definition press_events :: "nat \<Rightarrow> event list" where
  "press_events key_code =
     [KeyboardInput key_code 0, Sleep timeout, KeyboardInput key_code KEY_EVENT_RELEASE]"


section \<open>Facts about the string primitives\<close>

lemma index_from_eq:
  "index_from c xs i =
     (if c \<in> set xs then int (i + length (takeWhile (\<lambda>x. x \<noteq> c) xs)) else - 1)"
  by (induction xs arbitrary: i) auto

lemma py_find_nat: "py_find s c (int k) = index_from c (drop k s) k"
  by (simp add: py_find_def)

lemma py_find_hit:
  assumes "c \<notin> set pre"
  shows "py_find (before @ pre @ c # post) c (int (length before)) =
           int (length before + length pre)"
proof -
  have "takeWhile (\<lambda>x. x \<noteq> c) (pre @ c # post) = pre"
    using assms by (induction pre) auto
  then show ?thesis
    by (simp add: py_find_nat index_from_eq)
qed

lemma drop_slice:
  assumes "i \<le> j" and "j < length s"
  shows "drop i s = slice s i j @ s ! j # drop (Suc j) s"
proof -
  have "drop i s = take (j - i) (drop i s) @ drop (j - i) (drop i s)"
    by (rule append_take_drop_id[symmetric])
  also have "drop (j - i) (drop i s) = drop j s"
    using assms by simp
  also have "drop j s = s ! j # drop (Suc j) s"
    using assms by (simp add: Cons_nth_drop_Suc)
  also have "take (j - i) (drop i s) = slice s i j"
    by (simp add: slice_def drop_take)
  finally show ?thesis .
qed

lemma index_from_found:
  "index_from c xs i = r \<Longrightarrow> 0 \<le> r \<Longrightarrow>
     \<exists>n. r = int (i + n) \<and> n < length xs \<and> xs ! n = c \<and> c \<notin> set (take n xs)"
proof (induction xs arbitrary: i)
  case Nil
  then show ?case by simp
next
  case (Cons x xs)
  show ?case
  proof (cases "x = c")
    case True
    with Cons.prems have "r = int (i + 0) \<and> 0 < length (x # xs) \<and> (x # xs) ! 0 = c
        \<and> c \<notin> set (take 0 (x # xs))"
      by simp
    then show ?thesis by blast
  next
    case False
    with Cons.prems have "index_from c xs (Suc i) = r" by simp
    from Cons.IH[OF this Cons.prems(2)] obtain n where
      n: "r = int (Suc i + n)" "n < length xs" "xs ! n = c" "c \<notin> set (take n xs)"
      by blast
    with False have "r = int (i + Suc n) \<and> Suc n < length (x # xs) \<and> (x # xs) ! Suc n = c
        \<and> c \<notin> set (take (Suc n) (x # xs))"
      by simp
    then show ?thesis by blast
  qed
qed

lemma py_find_found:
  assumes "py_find s c (int k) = r" and "0 \<le> r"
  shows "k \<le> nat r \<and> nat r < length s \<and> s ! nat r = c \<and> c \<notin> set (slice s k (nat r))"
proof -
  from assms have "index_from c (drop k s) k = r"
    by (simp add: py_find_nat)
  from index_from_found[OF this assms(2)] obtain n where
    n: "r = int (k + n)" "n < length (drop k s)" "drop k s ! n = c"
       "c \<notin> set (take n (drop k s))"
    by blast
  have r: "nat r = k + n" using n(1) by simp
  have lt: "k + n < length s" using n(2) by simp
  have nth: "s ! (k + n) = c" using n(3) lt by simp
  have "slice s k (k + n) = take n (drop k s)"
    by (simp add: slice_def drop_take)
  with n(4) have "c \<notin> set (slice s k (k + n))" by simp
  with r lt nth show ?thesis by simp
qed

section \<open>Facts about the reader\<close>

lemma slice_middle:
  "slice (before @ mid @ after) (length before) (length before + length mid) = mid"
  by (simp add: slice_def)

lemma decimal_string_isdigit: "decimal_string s \<Longrightarrow> isdigit s"
  by (auto simp: decimal_string_def isdigit_def isdigit_char_def list_all_iff)

lemma command_line_fields:
  assumes "command_line temp delay cmd param"
  shows "\<exists>r3 r4. py_find temp (CHR '','') 0 = int (length delay)
     \<and> py_find temp (CHR '','') (int (length delay) + 1) = int (length delay + 1 + length cmd)
     \<and> py_find temp (CHR 0x22) (int (length delay + 1 + length cmd) + 1) = int r3
     \<and> py_find temp (CHR 0x22) (int r3 + 1) = int r4
     \<and> length delay + 1 + length cmd < r3 \<and> r3 < r4
     \<and> slice temp 0 (length delay) = delay
     \<and> slice temp (length delay + 1) (length delay + 1 + length cmd) = cmd
     \<and> slice temp (r3 + 1) r4 = param"
proof -
  from assms obtain junk rest where
    temp: "temp = delay @ CHR '','' # cmd @ CHR '','' # junk @ CHR 0x22 # param @ CHR 0x22 # rest"
    and nd: "CHR '','' \<notin> set delay" and nc: "CHR '','' \<notin> set cmd"
    and nj: "CHR 0x22 \<notin> set junk" and np: "CHR 0x22 \<notin> set param"
    unfolding command_line_def by blast
  let ?b2 = "delay @ [CHR '','']"
  let ?b3 = "?b2 @ cmd @ [CHR '','']"
  let ?b4 = "?b3 @ junk @ [CHR 0x22]"
  have t1: "temp = [] @ delay @ CHR '','' # (cmd @ CHR '','' # junk @ CHR 0x22 # param @ CHR 0x22 # rest)"
    by (simp add: temp)
  have t2: "temp = ?b2 @ cmd @ CHR '','' # (junk @ CHR 0x22 # param @ CHR 0x22 # rest)"
    by (simp add: temp)
  have t3: "temp = ?b3 @ junk @ CHR 0x22 # (param @ CHR 0x22 # rest)"
    by (simp add: temp)
  have t4: "temp = ?b4 @ param @ CHR 0x22 # rest"
    by (simp add: temp)
  have f1: "py_find temp (CHR '','') 0 = int (length delay)"
    using py_find_hit[OF nd, of "[]" "cmd @ CHR '','' # junk @ CHR 0x22 # param @ CHR 0x22 # rest"]
    by (simp add: t1)
  have f2: "py_find temp (CHR '','') (int (length delay) + 1) = int (length delay + 1 + length cmd)"
    using py_find_hit[OF nc, of ?b2 "junk @ CHR 0x22 # param @ CHR 0x22 # rest"]
    by (simp add: t2 ac_simps)
  have f3: "py_find temp (CHR 0x22) (int (length delay + 1 + length cmd) + 1) = int (length ?b3 + length junk)"
    using py_find_hit[OF nj, of ?b3 "param @ CHR 0x22 # rest"]
    by (simp add: t3 ac_simps)
  have f4: "py_find temp (CHR 0x22) (int (length ?b3 + length junk) + 1) = int (length ?b4 + length param)"
    using py_find_hit[OF np, of ?b4 rest]
    by (simp add: t4 ac_simps)
  have s1: "slice temp 0 (length delay) = delay"
    using slice_middle[of "[]" delay "CHR '','' # cmd @ CHR '','' # junk @ CHR 0x22 # param @ CHR 0x22 # rest"]
    by (simp add: t1)
  have s2: "slice temp (length delay + 1) (length delay + 1 + length cmd) = cmd"
    using slice_middle[of ?b2 cmd "CHR '','' # junk @ CHR 0x22 # param @ CHR 0x22 # rest"]
    by (simp add: t2 ac_simps)
  have s3: "slice temp (length ?b3 + length junk + 1) (length ?b4 + length param) = param"
    using slice_middle[of ?b4 param "CHR 0x22 # rest"]
    by (simp add: t4 ac_simps)
  have o1: "length delay + 1 + length cmd < length ?b3 + length junk" by simp
  have o2: "length ?b3 + length junk < length ?b4 + length param" by simp
  from f1 f2 f3 f4 o1 o2 s1 s2 s3 show ?thesis by blast
qed

lemma fields_command_line:
  assumes f1: "py_find temp (CHR '','') 0 = r1"
    and f2: "py_find temp (CHR '','') (r1 + 1) = r2"
    and f3: "py_find temp (CHR 0x22) (r2 + 1) = r3"
    and f4: "py_find temp (CHR 0x22) (r3 + 1) = r4"
    and ord: "0 < r1" "r1 < r2" "r2 < r3" "r3 < r4"
  shows "command_line temp (slice temp 0 (nat r1)) (slice temp (nat (r1 + 1)) (nat r2))
           (slice temp (nat (r3 + 1)) (nat r4))
         \<and> slice temp 0 (nat r1) \<noteq> []"
proof -
  have e1: "r1 + 1 = int (Suc (nat r1))" and e2: "r2 + 1 = int (Suc (nat r2))"
    and e3: "r3 + 1 = int (Suc (nat r3))"
    using ord by simp_all
  have p1: "nat r1 < length temp \<and> temp ! nat r1 = CHR '','' \<and> CHR '','' \<notin> set (slice temp 0 (nat r1))"
    using py_find_found[of temp "CHR '',''" 0 r1] f1 ord by simp
  have p2: "Suc (nat r1) \<le> nat r2 \<and> nat r2 < length temp \<and> temp ! nat r2 = CHR '',''
      \<and> CHR '','' \<notin> set (slice temp (Suc (nat r1)) (nat r2))"
    using py_find_found[of temp "CHR '',''" "Suc (nat r1)" r2] f2 ord e1 by simp
  have p3: "Suc (nat r2) \<le> nat r3 \<and> nat r3 < length temp \<and> temp ! nat r3 = CHR 0x22
      \<and> CHR 0x22 \<notin> set (slice temp (Suc (nat r2)) (nat r3))"
    using py_find_found[of temp "CHR 0x22" "Suc (nat r2)" r3] f3 ord e2 by simp
  have p4: "Suc (nat r3) \<le> nat r4 \<and> nat r4 < length temp \<and> temp ! nat r4 = CHR 0x22
      \<and> CHR 0x22 \<notin> set (slice temp (Suc (nat r3)) (nat r4))"
    using py_find_found[of temp "CHR 0x22" "Suc (nat r3)" r4] f4 ord e3 by simp
  have d1: "temp = slice temp 0 (nat r1) @ CHR '','' # drop (Suc (nat r1)) temp"
    using drop_slice[of 0 "nat r1" temp] p1 by simp
  have d2: "drop (Suc (nat r1)) temp =
      slice temp (Suc (nat r1)) (nat r2) @ CHR '','' # drop (Suc (nat r2)) temp"
    using drop_slice[of "Suc (nat r1)" "nat r2" temp] p2 by simp
  have d3: "drop (Suc (nat r2)) temp =
      slice temp (Suc (nat r2)) (nat r3) @ CHR 0x22 # drop (Suc (nat r3)) temp"
    using drop_slice[of "Suc (nat r2)" "nat r3" temp] p3 by simp
  have d4: "drop (Suc (nat r3)) temp =
      slice temp (Suc (nat r3)) (nat r4) @ CHR 0x22 # drop (Suc (nat r4)) temp"
    using drop_slice[of "Suc (nat r3)" "nat r4" temp] p4 by simp
  have whole: "temp = slice temp 0 (nat r1) @ CHR '','' # slice temp (Suc (nat r1)) (nat r2)
      @ CHR '','' # slice temp (Suc (nat r2)) (nat r3)
      @ CHR 0x22 # slice temp (Suc (nat r3)) (nat r4) @ CHR 0x22 # drop (Suc (nat r4)) temp"
    using d1 d2 d3 d4 by simp
  have n1: "nat (r1 + 1) = Suc (nat r1)" and n3: "nat (r3 + 1) = Suc (nat r3)"
    using ord by simp_all
  have shape: "command_line temp (slice temp 0 (nat r1)) (slice temp (Suc (nat r1)) (nat r2))
           (slice temp (Suc (nat r3)) (nat r4))"
    unfolding command_line_def using whole p1 p2 p3 p4 by blast
  have "length (slice temp 0 (nat r1)) = nat r1"
    using p1 by (simp add: slice_def)
  with ord have "slice temp 0 (nat r1) \<noteq> []"
    by auto
  with shape n1 n3 show ?thesis by simp
qed

lemma load_lines_append:
  "load_lines st n (xs @ ys) =
     (case load_lines st n xs of
        Inl e \<Rightarrow> Inl e
      | Inr st' \<Rightarrow> load_lines st' (n + length xs) ys)"
  by (induction xs arbitrary: st n) (auto split: sum.splits)

text \<open>While a script is open, its name is a key of the table.\<close>

lemma process_line_open_key:
  assumes "process_line (scripts, s_name) (n, line) = Inr (scripts', s_name')"
    and "s_name \<noteq> [] \<longrightarrow> s_name \<in> set (map fst scripts)"
  shows "s_name' \<noteq> [] \<longrightarrow> s_name' \<in> set (map fst scripts')"
  using assms
  by (auto simp: process_line_def Let_def dom_update
      split: if_splits sum.splits option.splits)

lemma load_lines_open_key:
  assumes "load_lines st n ls = Inr st'"
    and "snd st \<noteq> [] \<longrightarrow> snd st \<in> set (map fst (fst st))"
  shows "snd st' \<noteq> [] \<longrightarrow> snd st' \<in> set (map fst (fst st'))"
  using assms
proof (induction ls arbitrary: st n)
  case Nil
  then show ?case by simp
next
  case (Cons l ls)
  obtain scripts s_name where st: "st = (scripts, s_name)" by (cases st)
  from Cons.prems(1) obtain st1 where
    step: "process_line st (n, l) = Inr st1" and rest: "load_lines st1 (Suc n) ls = Inr st'"
    by (auto split: sum.splits)
  obtain scripts1 s_name1 where st1: "st1 = (scripts1, s_name1)" by (cases st1)
  have "snd st1 \<noteq> [] \<longrightarrow> snd st1 \<in> set (map fst (fst st1))"
    using process_line_open_key[of scripts s_name n l scripts1 s_name1] step Cons.prems(2)
    by (simp add: st st1)
  from Cons.IH[OF rest this] show ?case .
qed

lemma contains_prefix_iff:
  "contains_prefix pre line \<longleftrightarrow> line \<noteq> [] \<and> take (length pre) line = pre"
proof (cases "length pre > length line \<or> line = []")
  case True
  then show ?thesis
    by (auto simp: contains_prefix_def)
next
  case False
  then have len: "length pre \<le> length line" and ne: "line \<noteq> []" by simp_all
  have nth: "(\<forall>i<length pre. pre ! i = line ! i) \<longleftrightarrow> take (length pre) line = pre"
  proof
    assume a: "\<forall>i<length pre. pre ! i = line ! i"
    show "take (length pre) line = pre"
      by (rule nth_equalityI) (use len a in simp_all)
  next
    assume t: "take (length pre) line = pre"
    show "\<forall>i<length pre. pre ! i = line ! i"
    proof (intro allI impI)
      fix i assume i: "i < length pre"
      then have "take (length pre) line ! i = line ! i" by simp
      with t show "pre ! i = line ! i" by simp
    qed
  qed
  have "list_all (\<lambda>i. pre ! i = line ! i) [0 ..< length pre] \<longleftrightarrow>
      (\<forall>i<length pre. pre ! i = line ! i)"
    by (auto simp: list_all_iff)
  with nth False show ?thesis
    by (simp add: contains_prefix_def)
qed

lemma tag_line_hd:
  assumes "contains_prefix ''---'' t"
  shows "t \<noteq> [] \<and> hd t = CHR ''-''"
proof -
  from assms have ne: "t \<noteq> []" and tk: "take (Suc (Suc (Suc 0))) t = ''---''"
    by (simp_all add: contains_prefix_iff)
  then obtain c cs where t: "t = c # cs" by (cases t) auto
  with tk have "c = CHR ''-''" by simp
  with t show ?thesis by simp
qed

lemma process_line_body:
  assumes "s_name \<noteq> []" and "temp_of line \<noteq> []" and "hd (temp_of line) \<notin> set ''#%''"
    and "\<not> contains_prefix ''---'' (temp_of line)"
    and "py_find (temp_of line) (CHR '','') 0 = r1"
    and "py_find (temp_of line) (CHR '','') (r1 + 1) = r2"
    and "py_find (temp_of line) (CHR 0x22) (r2 + 1) = r3"
    and "py_find (temp_of line) (CHR 0x22) (r3 + 1) = r4"
  shows "process_line (scripts, s_name) (n, line) =
     (if r1 \<le> 0 \<or> r2 \<le> 0 \<or> r3 \<le> 0 \<or> r4 \<le> 0 \<or> r2 \<le> r1 \<or> r3 \<le> r2 \<or> r4 \<le> r3
      then Inl (InvalidSplit r1 r2 r3 r4 (temp_of line))
      else if \<not> isdigit (slice (temp_of line) 0 (nat r1))
      then Inl (DelayNotInteger (slice (temp_of line) 0 (nat r1)))
      else (case py_int (slice (temp_of line) 0 (nat r1)) of
              Inl e \<Rightarrow> Inl (Uncaught e)
            | Inr delay \<Rightarrow>
                (case map_of scripts s_name of
                   None \<Rightarrow> Inl (Uncaught (KeyError s_name))
                 | Some cmds \<Rightarrow>
                     Inr (AList.update s_name
                            (cmds @ [(delay, slice (temp_of line) (nat (r1 + 1)) (nat r2),
                                      slice (temp_of line) (nat (r3 + 1)) (nat r4))]) scripts,
                          s_name))))"
  using assms by (simp add: process_line_def Let_def)

lemma roc_loop_plain:
  assumes "\<forall>c\<in>set xs. c \<noteq> mark_char \<and> c \<notin> set rm_chars"
  shows "roc_loop mark_char rm_chars prev False (xs @ ys) =
           xs @ roc_loop mark_char rm_chars (if xs = [] then prev else Some (last xs)) False ys"
  using assms by (induction xs arbitrary: prev) auto

text \<open>A body line of the shape of a command, in the state with a script open.\<close>

lemma process_line_command:
  assumes opened: "s_name \<noteq> []"
    and body: "temp_of line \<noteq> []" "hd (temp_of line) \<notin> set ''#%''"
      "\<not> contains_prefix ''---'' (temp_of line)"
    and shape: "command_line (temp_of line) delay cmd param"
    and ne: "delay \<noteq> []"
  shows "process_line (scripts, s_name) (n, line) =
     (if \<not> isdigit delay then Inl (DelayNotInteger delay)
      else (case py_int delay of
              Inl e \<Rightarrow> Inl (Uncaught e)
            | Inr d \<Rightarrow>
                (case map_of scripts s_name of
                   None \<Rightarrow> Inl (Uncaught (KeyError s_name))
                 | Some cmds \<Rightarrow>
                     Inr (AList.update s_name (cmds @ [(d, cmd, param)]) scripts, s_name))))"
proof -
  let ?temp = "temp_of line"
  from command_line_fields[OF shape] obtain r3 r4 where
    f1: "py_find ?temp (CHR '','') 0 = int (length delay)"
    and f2: "py_find ?temp (CHR '','') (int (length delay) + 1) = int (length delay + 1 + length cmd)"
    and f3: "py_find ?temp (CHR 0x22) (int (length delay + 1 + length cmd) + 1) = int r3"
    and f4: "py_find ?temp (CHR 0x22) (int r3 + 1) = int r4"
    and ord: "length delay + 1 + length cmd < r3" "r3 < r4"
    and s1: "slice ?temp 0 (length delay) = delay"
    and s2: "slice ?temp (length delay + 1) (length delay + 1 + length cmd) = cmd"
    and s3: "slice ?temp (r3 + 1) r4 = param"
    by blast
  have pos: "0 < length delay" using ne by simp
  have s2': "slice ?temp (Suc (length delay)) (Suc (length delay + length cmd)) = cmd"
    using s2 by simp
  have s3': "slice ?temp (Suc r3) r4 = param"
    using s3 by simp
  have n2: "nat (int (length delay) + 1) = length delay + 1"
    and n3: "nat (int r3 + 1) = r3 + 1" by simp_all
  show ?thesis
    using process_line_body[OF opened body f1 f2 f3 f4, of scripts n] pos ord
    by (simp add: s1 s2' s3' n2 n3 del: of_nat_add of_nat_Suc
        split: sum.splits option.splits)
qed

text \<open>
  Claim C1, as amended. While a script is open, a body line (stripped, not empty, not a
  comment and not a tag) is read as follows. If it has the shape delay, comma, command,
  comma, anything without a quote, quote, parameters, quote, with the fields cut at the
  first comma, the next comma, the next quote and the quote after it, and the delay
  field is a string of decimal digits, at most 4300 of them, the triple of its value,
  the command field and the parameter field is appended to the commands of the open
  script. If the line has no such shape with such a delay field, the line is an error,
  and so is the whole load whatever follows the line.
\<close>

theorem body_line_parsed:
  assumes reach: "load_lines ([], []) 1 pre = Inr (scripts, s_name)"
    and opened: "s_name \<noteq> []"
    and body: "temp_of line \<noteq> []" "hd (temp_of line) \<notin> set ''#%''"
      "\<not> contains_prefix ''---'' (temp_of line)"
  shows "(command_line (temp_of line) delay cmd param \<and> decimal_string delay
            \<and> length delay \<le> int_max_str_digits \<longrightarrow>
            (\<exists>cmds. map_of scripts s_name = Some cmds \<and>
               process_line (scripts, s_name) (Suc (length pre), line) =
                 Inr (AList.update s_name (cmds @ [(decimal_value delay, cmd, param)]) scripts,
                      s_name)))
       \<and> (\<not> (\<exists>d c p. command_line (temp_of line) d c p \<and> decimal_string d
                 \<and> length d \<le> int_max_str_digits) \<longrightarrow>
            (\<exists>e. process_line (scripts, s_name) (Suc (length pre), line) = Inl e
               \<and> (\<forall>post. load_lines ([], []) 1 (pre @ line # post) = Inl e)))"
proof (intro conjI impI)
  let ?temp = "temp_of line"
  have "s_name \<in> set (map fst scripts)"
    using load_lines_open_key[OF reach] opened by simp
  then obtain cmds where cmds: "map_of scripts s_name = Some cmds"
    by (metis map_of_eq_None_iff not_Some_eq set_map)
  {
    assume "command_line ?temp delay cmd param \<and> decimal_string delay
        \<and> length delay \<le> int_max_str_digits"
    then have shape: "command_line ?temp delay cmd param" and dec: "decimal_string delay"
      and len: "length delay \<le> int_max_str_digits"
      by simp_all
    have ne: "delay \<noteq> []" using dec by (simp add: decimal_string_def)
    have "process_line (scripts, s_name) (Suc (length pre), line) =
        Inr (AList.update s_name (cmds @ [(decimal_value delay, cmd, param)]) scripts, s_name)"
      using process_line_command[OF opened body shape ne, of scripts "Suc (length pre)"]
        dec len decimal_string_isdigit[OF dec] cmds
      by (simp add: py_int_def)
    with cmds show "\<exists>cmds. map_of scripts s_name = Some cmds \<and>
               process_line (scripts, s_name) (Suc (length pre), line) =
                 Inr (AList.update s_name (cmds @ [(decimal_value delay, cmd, param)]) scripts,
                      s_name)"
      by blast
  }
  {
    assume none: "\<not> (\<exists>d c p. command_line ?temp d c p \<and> decimal_string d
        \<and> length d \<le> int_max_str_digits)"
    define r1 where "r1 = py_find ?temp (CHR '','') 0"
    define r2 where "r2 = py_find ?temp (CHR '','') (r1 + 1)"
    define r3 where "r3 = py_find ?temp (CHR 0x22) (r2 + 1)"
    define r4 where "r4 = py_find ?temp (CHR 0x22) (r3 + 1)"
    note eq = process_line_body[OF opened body r1_def[symmetric] r2_def[symmetric]
        r3_def[symmetric] r4_def[symmetric], of scripts "Suc (length pre)"]
    have "\<exists>e. process_line (scripts, s_name) (Suc (length pre), line) = Inl e"
    proof (cases "process_line (scripts, s_name) (Suc (length pre), line)")
      case (Inl e)
      then show ?thesis by blast
    next
      case (Inr st')
      with eq have ord: "0 < r1" "r1 < r2" "r2 < r3" "r3 < r4"
        and dec: "decimal_string (slice ?temp 0 (nat r1))"
        and len: "length (slice ?temp 0 (nat r1)) \<le> int_max_str_digits"
        by (auto simp: py_int_def split: if_splits sum.splits)
      from fields_command_line[OF r1_def[symmetric] r2_def[symmetric] r3_def[symmetric]
          r4_def[symmetric] ord]
      have "command_line ?temp (slice ?temp 0 (nat r1)) (slice ?temp (nat (r1 + 1)) (nat r2))
           (slice ?temp (nat (r3 + 1)) (nat r4))"
        by simp
      with dec len none show ?thesis by blast
    qed
    then obtain e where e: "process_line (scripts, s_name) (Suc (length pre), line) = Inl e"
      by blast
    have "\<forall>post. load_lines ([], []) 1 (pre @ line # post) = Inl e"
      using reach e by (simp add: load_lines_append)
    with e show "\<exists>e. process_line (scripts, s_name) (Suc (length pre), line) = Inl e
               \<and> (\<forall>post. load_lines ([], []) 1 (pre @ line # post) = Inl e)"
      by blast
  }
qed

theorem body_line_parsed_witness:
  "load_lines ([], []) 1 [''---A'' @ [CHR 0x0A]] = Inr ([(''A'', [])], ''A'')
   \<and> command_line (temp_of ('' 5 , move , '' @ CHR 0x22 # ''10,20'' @ [CHR 0x22, CHR '' '', CHR 0x0A]))
         ''5'' ''move'' ''10,20''
   \<and> decimal_string ''5'' \<and> length ''5'' \<le> int_max_str_digits
   \<and> process_line ([(''A'', [])], ''A'')
         (2, '' 5 , move , '' @ CHR 0x22 # ''10,20'' @ [CHR 0x22, CHR '' '', CHR 0x0A]) =
       Inr ([(''A'', [(5, ''move'', ''10,20'')])], ''A'')
   \<and> process_line ([(''A'', [])], ''A'') (2, ''abc,press,'' @ CHR 0x22 # ''a'' @ [CHR 0x22, CHR 0x0A]) =
       Inl (DelayNotInteger ''abc'')
   \<and> load_lines ([], []) 1
         [''---A'' @ [CHR 0x0A], ''abc,press,'' @ CHR 0x22 # ''a'' @ [CHR 0x22, CHR 0x0A],
          ''---'' @ [CHR 0x0A]] =
       Inl (DelayNotInteger ''abc'')"
proof -
  let ?pre = "[''---A'' @ [CHR 0x0A]]"
  let ?good = "'' 5 , move , '' @ CHR 0x22 # ''10,20'' @ [CHR 0x22, CHR '' '', CHR 0x0A]"
  let ?bad = "''abc,press,'' @ CHR 0x22 # ''a'' @ [CHR 0x22, CHR 0x0A]"
  have reach: "load_lines ([], []) 1 ?pre = Inr ([(''A'', [])], ''A'')"
    by code_simp
  have opened: "''A'' \<noteq> []" by simp
  have tg: "temp_of ?good = ''5,move,'' @ CHR 0x22 # ''10,20'' @ [CHR 0x22]"
    by code_simp
  have tb: "temp_of ?bad = ''abc,press,'' @ CHR 0x22 # ''a'' @ [CHR 0x22]"
    by code_simp
  have bg: "temp_of ?good \<noteq> []" "hd (temp_of ?good) \<notin> set ''#%''"
      "\<not> contains_prefix ''---'' (temp_of ?good)"
    by code_simp+
  have bb: "temp_of ?bad \<noteq> []" "hd (temp_of ?bad) \<notin> set ''#%''"
      "\<not> contains_prefix ''---'' (temp_of ?bad)"
    by code_simp+
  have shape: "command_line (temp_of ?good) ''5'' ''move'' ''10,20''"
    unfolding command_line_def tg
    by (rule exI[of _ "[]"], rule exI[of _ "[]"]) simp
  have dec: "decimal_string ''5''" by code_simp
  have len: "length ''5'' \<le> int_max_str_digits" by (simp add: int_max_str_digits_def)
  have val: "decimal_value ''5'' = 5" by code_simp
  from body_line_parsed[OF reach opened bg, of "''5''" "''move''" "''10,20''"] shape dec len
  obtain cmds where "map_of [(''A'', [])] ''A'' = Some cmds"
    and "process_line ([(''A'', [])], ''A'') (Suc (length ?pre), ?good) =
      Inr (AList.update ''A'' (cmds @ [(decimal_value ''5'', ''move'', ''10,20'')]) [(''A'', [])], ''A'')"
    by blast
  then have good: "process_line ([(''A'', [])], ''A'') (2, ?good) =
      Inr ([(''A'', [(5, ''move'', ''10,20'')])], ''A'')"
    by (simp add: val numeral_2_eq_2)
  have ev: "process_line ([(''A'', [])], ''A'') (2, ?bad) = Inl (DelayNotInteger ''abc'')"
    by code_simp
  have none: "\<not> (\<exists>d c p. command_line (temp_of ?bad) d c p \<and> decimal_string d
      \<and> length d \<le> int_max_str_digits)"
  proof
    assume "\<exists>d c p. command_line (temp_of ?bad) d c p \<and> decimal_string d
      \<and> length d \<le> int_max_str_digits"
    then obtain d c p where "command_line (temp_of ?bad) d c p \<and> decimal_string d
      \<and> length d \<le> int_max_str_digits"
      by blast
    with body_line_parsed[OF reach opened bb, of d c p]
    have "\<exists>st. process_line ([(''A'', [])], ''A'') (Suc (length ?pre), ?bad) = Inr st"
      by blast
    with ev show False by (simp add: numeral_2_eq_2)
  qed
  with body_line_parsed[OF reach opened bb] obtain e where
    "process_line ([(''A'', [])], ''A'') (Suc (length ?pre), ?bad) = Inl e"
    and all: "\<forall>post. load_lines ([], []) 1 (?pre @ ?bad # post) = Inl e"
    by blast
  with ev have e: "e = DelayNotInteger ''abc''" by (simp add: numeral_2_eq_2)
  from all have "load_lines ([], []) 1 (?pre @ ?bad # [''---'' @ [CHR 0x0A]]) = Inl e"
    by blast
  with e have bad: "load_lines ([], []) 1 [''---A'' @ [CHR 0x0A], ?bad, ''---'' @ [CHR 0x0A]] =
       Inl (DelayNotInteger ''abc'')"
    by simp
  from reach shape dec len good ev bad show ?thesis by blast
qed

text \<open>
  The claim as it was stated fails for a delay field of 4301 digits: the line has the
  shape and the field is all decimal digits, but \<^verbatim>\<open>int()\<close> raises ValueError and
  nothing is appended. It fails for an empty delay field too: the four indexes are
  found in order and the field holds no character that is not a digit, but the line is
  refused for its indexes.
\<close>

theorem body_line_parsed_counterexample:
  "load_lines ([], []) 1 [''---A'' @ [CHR 0x0A]] = Inr ([(''A'', [])], ''A'')
   \<and> command_line
        (temp_of (replicate 4301 (CHR ''0'') @ '',press,'' @ [CHR 0x22, CHR ''a'', CHR 0x22, CHR 0x0A]))
        (replicate 4301 (CHR ''0'')) ''press'' ''a''
   \<and> decimal_string (replicate 4301 (CHR ''0''))
   \<and> process_line ([(''A'', [])], ''A'')
        (2, replicate 4301 (CHR ''0'') @ '',press,'' @ [CHR 0x22, CHR ''a'', CHR 0x22, CHR 0x0A])
      = Inl (Uncaught (ValueError (replicate 4301 (CHR ''0''))))
   \<and> command_line (temp_of ('',press,'' @ [CHR 0x22, CHR ''a'', CHR 0x22, CHR 0x0A]))
        [] ''press'' ''a''
   \<and> process_line ([(''A'', [])], ''A'')
        (2, '',press,'' @ [CHR 0x22, CHR ''a'', CHR 0x22, CHR 0x0A])
      = Inl (InvalidSplit 0 6 7 9 ('',press,'' @ [CHR 0x22, CHR ''a'', CHR 0x22]))"
proof -
  let ?D = "replicate 4301 (CHR ''0'')"
  let ?rest = "'',press,'' @ [CHR 0x22, CHR ''a'', CHR 0x22, CHR 0x0A]"
  let ?line = "?D @ ?rest"
  have reach: "load_lines ([], []) 1 [''---A'' @ [CHR 0x0A]] = Inr ([(''A'', [])], ''A'')"
    by code_simp
  have plain: "\<forall>c\<in>set ?D. c \<noteq> CHR 0x22 \<and> c \<notin> set whitespace"
    by (simp add: whitespace_def)
  have lastD: "(if ?D = [] then None else Some (last ?D)) = Some (CHR ''0'')"
    by simp
  have tail: "roc_loop (CHR 0x22) whitespace (Some (CHR ''0'')) False ?rest =
      '',press,'' @ [CHR 0x22, CHR ''a'', CHR 0x22]"
    by code_simp
  have t: "temp_of ?line = ?D @ '',press,'' @ [CHR 0x22, CHR ''a'', CHR 0x22]"
    unfolding remove_obsolete_characters_def roc_loop_plain[OF plain] lastD tail ..
  have ne: "?D \<noteq> []" by simp
  have dec: "decimal_string ?D"
    by (simp add: decimal_string_def list_all_iff is_decimal_char_def)
  have shape: "command_line (temp_of ?line) ?D ''press'' ''a''"
    unfolding command_line_def t
    by (rule exI[of _ "[]"], rule exI[of _ "[]"]) simp
  have b1: "temp_of ?line \<noteq> []" and b2: "hd (temp_of ?line) \<notin> set ''#%''"
    unfolding t by simp_all
  have b3: "\<not> contains_prefix ''---'' (temp_of ?line)"
  proof
    assume "contains_prefix ''---'' (temp_of ?line)"
    from tag_line_hd[OF this] show False unfolding t by simp
  qed
  have "py_int ?D = Inl (ValueError ?D)"
    by (simp add: py_int_def int_max_str_digits_def)
  with process_line_command[OF _ b1 b2 b3 shape ne, of "''A''" "[(''A'', [])]" 2]
    decimal_string_isdigit[OF dec]
  have "process_line ([(''A'', [])], ''A'') (2, ?line) = Inl (Uncaught (ValueError ?D))"
    by simp
  then have long: "process_line ([(''A'', [])], ''A'') (2, ?line) = Inl (Uncaught (ValueError ?D))" .
  let ?empty = "'',press,'' @ [CHR 0x22, CHR ''a'', CHR 0x22, CHR 0x0A]"
  have te: "temp_of ?empty = '',press,'' @ [CHR 0x22, CHR ''a'', CHR 0x22]"
    by code_simp
  have shape_e: "command_line (temp_of ?empty) [] ''press'' ''a''"
    unfolding command_line_def te
    by (rule exI[of _ "[]"], rule exI[of _ "[]"]) simp
  have refused: "process_line ([(''A'', [])], ''A'') (2, ?empty)
      = Inl (InvalidSplit 0 6 7 9 ('',press,'' @ [CHR 0x22, CHR ''a'', CHR 0x22]))"
    by code_simp
  from reach shape dec long shape_e refused show ?thesis by blast
qed

lemma update_present_keys:
  "map_of al k = Some v \<Longrightarrow> map fst (AList.update k v' al) = map fst al"
  by (induction al) (auto split: if_splits)

text \<open>What a line that is no error does to the state.\<close>

lemma process_line_Inr:
  assumes "process_line (scripts, s_name) (n, line) = Inr (scripts', s_name')"
    and "s_name \<noteq> [] \<longrightarrow> s_name \<in> set (map fst scripts)"
  shows "map fst scripts' =
           map fst scripts @ script_names (s_name \<noteq> []) [temp_of line]
         \<and> (s_name' \<noteq> []) =
             (if contains_prefix ''---'' (temp_of line) then s_name = [] else s_name \<noteq> [])"
proof (cases "contains_prefix ''---'' (temp_of line)")
  case True
  note tag = tag_line_hd[OF True]
  show ?thesis
  proof (cases "s_name = []")
    case True
    with assms(1) \<open>contains_prefix ''---'' (temp_of line)\<close> show ?thesis
      by (auto simp: process_line_def Let_def update_keys split: if_splits)
  next
    case False
    with assms(1) \<open>contains_prefix ''---'' (temp_of line)\<close> tag show ?thesis
      by (auto simp: process_line_def Let_def split: if_splits)
  qed
next
  case False
  show ?thesis
  proof (cases "s_name = []")
    case True
    with assms(1) False show ?thesis
      by (auto simp: process_line_def Let_def)
  next
    case opened: False
    with assms(2) have key: "s_name \<in> set (map fst scripts)" by simp
    from assms(1) False opened have "s_name' = s_name \<and> map fst scripts' = map fst scripts"
      by (auto simp: process_line_def Let_def update_present_keys
          split: if_splits sum.splits option.splits)
    with False opened show ?thesis by simp
  qed
qed

lemma load_lines_keys:
  assumes "load_lines (scripts, s_name) n ls = Inr (scripts', s_name')"
    and "s_name \<noteq> [] \<longrightarrow> s_name \<in> set (map fst scripts)"
  shows "map fst scripts' = map fst scripts @ script_names (s_name \<noteq> []) (map temp_of ls)"
  using assms
proof (induction ls arbitrary: scripts s_name n)
  case Nil
  then show ?case by simp
next
  case (Cons l ls)
  from Cons.prems(1) obtain scripts1 s_name1 where
    step: "process_line (scripts, s_name) (n, l) = Inr (scripts1, s_name1)"
    and rest: "load_lines (scripts1, s_name1) (Suc n) ls = Inr (scripts', s_name')"
    by (auto split: sum.splits)
  note one = process_line_Inr[OF step Cons.prems(2)]
  have key1: "s_name1 \<noteq> [] \<longrightarrow> s_name1 \<in> set (map fst scripts1)"
    using process_line_open_key[OF step Cons.prems(2)] .
  from Cons.IH[OF rest key1]
  have "map fst scripts' = map fst scripts1 @ script_names (s_name1 \<noteq> []) (map temp_of ls)" .
  with one show ?case
    by (auto split: if_splits)
qed

lemma load_lines_first_error:
  "load_lines st n ls = Inl e \<Longrightarrow>
     \<exists>pre l post st'. ls = pre @ l # post \<and> load_lines st n pre = Inr st'
       \<and> process_line st' (n + length pre, l) = Inl e"
proof (induction ls arbitrary: st n)
  case Nil
  then show ?case by simp
next
  case (Cons l ls)
  show ?case
  proof (cases "process_line st (n, l)")
    case (Inl e')
    with Cons.prems have "e' = e" by simp
    with Inl have "l # ls = [] @ l # ls \<and> load_lines st n [] = Inr st
        \<and> process_line st (n + length ([]::string list), l) = Inl e"
      by simp
    then show ?thesis by blast
  next
    case (Inr st1)
    with Cons.prems have "load_lines st1 (Suc n) ls = Inl e" by simp
    from Cons.IH[OF this] obtain pre l' post st' where
      ls: "ls = pre @ l' # post" and ok: "load_lines st1 (Suc n) pre = Inr st'"
      and bad: "process_line st' (Suc n + length pre, l') = Inl e"
      by blast
    have "l # ls = (l # pre) @ l' # post \<and> load_lines st n (l # pre) = Inr st'
        \<and> process_line st' (n + length (l # pre), l') = Inl e"
      using ls ok bad Inr by simp
    then show ?thesis by blast
  qed
qed

text \<open>
  Claim C3. The result of a load is a table or an error, never both. A load that
  returns a table returns one whose keys are the names of all scripts of the text, in
  the order of the text. A load ends in an error exactly when some line is an error in
  the state the lines before it built, and then the result is that error alone: the
  table built so far is dropped, whatever follows the line. An opening tag without a
  name and an opening tag with a name that is already a key are such errors.
\<close>

theorem load_all_or_nothing:
  "(case load_text contents of
      Inl e \<Rightarrow>
        (\<exists>pre l post st. file_lines contents = pre @ l # post
           \<and> load_lines ([], []) 1 pre = Inr st
           \<and> process_line st (Suc (length pre), l) = Inl e)
    | Inr table \<Rightarrow>
        map fst table = script_names False (map temp_of (file_lines contents)))
   \<and> (file_lines contents = pre @ l # post \<and> load_lines ([], []) 1 pre = Inr st
        \<and> process_line st (Suc (length pre), l) = Inl e
       \<longrightarrow> load_text contents = Inl e)
   \<and> (temp_of line = ''---'' \<longrightarrow> process_line (scripts, []) (n, line) = Inl (NoName n))
   \<and> (temp_of line = ''---'' @ name \<and> name \<noteq> [] \<and> name \<in> set (map fst scripts)
       \<longrightarrow> process_line (scripts, []) (n, line) = Inl (DuplicateName name))"
proof (intro conjI impI)
  show "case load_text contents of
      Inl e \<Rightarrow>
        (\<exists>pre l post st. file_lines contents = pre @ l # post
           \<and> load_lines ([], []) 1 pre = Inr st
           \<and> process_line st (Suc (length pre), l) = Inl e)
    | Inr table \<Rightarrow>
        map fst table = script_names False (map temp_of (file_lines contents))"
  proof (cases "load_lines ([], []) 1 (file_lines contents)")
    case (Inl e)
    from load_lines_first_error[OF this] have
      "\<exists>pre l post st. file_lines contents = pre @ l # post
           \<and> load_lines ([], []) 1 pre = Inr st
           \<and> process_line st (Suc (length pre), l) = Inl e"
      by simp
    with Inl show ?thesis by (simp add: load_text_def)
  next
    case (Inr st)
    obtain scripts' s_name' where st: "st = (scripts', s_name')" by (cases st)
    from load_lines_keys[of "[]" "[]" 1 "file_lines contents" scripts' s_name'] Inr st
    have "map fst scripts' = script_names False (map temp_of (file_lines contents))"
      by simp
    with Inr st show ?thesis by (simp add: load_text_def)
  qed
next
  assume "file_lines contents = pre @ l # post \<and> load_lines ([], []) 1 pre = Inr st
        \<and> process_line st (Suc (length pre), l) = Inl e"
  then show "load_text contents = Inl e"
    by (simp add: load_text_def load_lines_append)
next
  assume "temp_of line = ''---''"
  then show "process_line (scripts, []) (n, line) = Inl (NoName n)"
    by (simp add: process_line_def contains_prefix_iff)
next
  assume a: "temp_of line = ''---'' @ name \<and> name \<noteq> [] \<and> name \<in> set (map fst scripts)"
  then have "contains_prefix ''---'' (temp_of line)" and "\<not> length (temp_of line) < 4"
    and "drop 3 (temp_of line) = name"
    by (simp_all add: contains_prefix_iff)
  with a show "process_line (scripts, []) (n, line) = Inl (DuplicateName name)"
    by (simp add: process_line_def Let_def)
qed

theorem load_all_or_nothing_witness:
  "load_text (''---A'' @ [CHR 0x0A] @ ''0,press,'' @ CHR 0x22 # ''a'' @ [CHR 0x22, CHR 0x0A]
              @ ''---'' @ [CHR 0x0A] @ ''---A'' @ [CHR 0x0A] @ ''---'' @ [CHR 0x0A])
     = Inl (DuplicateName ''A'')
   \<and> load_lines ([], []) 1
        [''---A'' @ [CHR 0x0A], ''0,press,'' @ CHR 0x22 # ''a'' @ [CHR 0x22, CHR 0x0A],
         ''---'' @ [CHR 0x0A]]
     = Inr ([(''A'', [(0, ''press'', ''a'')])], [])
   \<and> load_text (''x'' @ [CHR 0x0A] @ '' --- '' @ [CHR 0x0A]) = Inl (NoName 2)
   \<and> load_text (''---A'' @ [CHR 0x0A] @ ''---'' @ [CHR 0x0A] @ ''---B'' @ [CHR 0x0A])
     = Inr [(''A'', []), (''B'', [])]
   \<and> script_names False
        (map temp_of (file_lines (''---A'' @ [CHR 0x0A] @ ''---'' @ [CHR 0x0A] @ ''---B'' @ [CHR 0x0A])))
     = [''A'', ''B'']"
proof -
  let ?l1 = "''---A'' @ [CHR 0x0A]"
  let ?l2 = "''0,press,'' @ CHR 0x22 # ''a'' @ [CHR 0x22, CHR 0x0A]"
  let ?l3 = "''---'' @ [CHR 0x0A]"
  let ?dup = "?l1 @ ?l2 @ ?l3 @ ?l1 @ ?l3"
  let ?st = "([(''A'', [(0, ''press'', ''a'')])], [])"
  have fl: "file_lines ?dup = [?l1, ?l2, ?l3] @ ?l1 # [?l3]"
    by code_simp
  have pre: "load_lines ([], []) 1 [?l1, ?l2, ?l3] = Inr ?st"
    by code_simp
  have t: "temp_of ?l1 = ''---'' @ ''A''"
    by code_simp
  have dup: "process_line ?st (Suc (length [?l1, ?l2, ?l3]), ?l1) = Inl (DuplicateName ''A'')"
    using load_all_or_nothing[where line = "?l1" and name = "''A''"
        and scripts = "[(''A'', [(0, ''press'', ''a'')])]" and n = "Suc (length [?l1, ?l2, ?l3])"] t
    by simp
  have r1: "load_text ?dup = Inl (DuplicateName ''A'')"
    using load_all_or_nothing[where contents = "?dup" and pre = "[?l1, ?l2, ?l3]" and l = "?l1"
        and post = "[?l3]" and st = "?st" and e = "DuplicateName ''A''"] fl pre dup
    by blast
  let ?noname = "''x'' @ [CHR 0x0A] @ '' --- '' @ [CHR 0x0A]"
  have fl2: "file_lines ?noname = [''x'' @ [CHR 0x0A]] @ ('' --- '' @ [CHR 0x0A]) # []"
    by code_simp
  have pre2: "load_lines ([], []) 1 [''x'' @ [CHR 0x0A]] = Inr ([], [])"
    by code_simp
  have t2: "temp_of ('' --- '' @ [CHR 0x0A]) = ''---''"
    by code_simp
  have nn: "process_line ([], []) (Suc (length [''x'' @ [CHR 0x0A]]), '' --- '' @ [CHR 0x0A])
      = Inl (NoName (Suc (length [''x'' @ [CHR 0x0A]])))"
    using load_all_or_nothing[where line = "'' --- '' @ [CHR 0x0A]" and scripts = "[]"
        and n = "Suc (length [''x'' @ [CHR 0x0A]])"] t2
    by simp
  have "load_text ?noname = Inl (NoName (Suc (length [''x'' @ [CHR 0x0A]])))"
    using load_all_or_nothing[where contents = "?noname" and pre = "[''x'' @ [CHR 0x0A]]"
        and l = "'' --- '' @ [CHR 0x0A]" and post = "[]" and st = "([], [])"
        and e = "NoName (Suc (length [''x'' @ [CHR 0x0A]]))"] fl2 pre2 nn
    by blast
  then have r2: "load_text ?noname = Inl (NoName 2)"
    by (simp add: numeral_2_eq_2)
  let ?good = "?l1 @ ?l3 @ ''---B'' @ [CHR 0x0A]"
  have r3: "load_text ?good = Inr [(''A'', []), (''B'', [])]"
    by code_simp
  have r4: "script_names False (map temp_of (file_lines ?good)) = [''A'', ''B'']"
    using load_all_or_nothing[where contents = "?good"] r3
    by simp
  from r1 pre r2 r3 r4 show ?thesis by simp
qed

text \<open>
  Claim C9. When all lines of a text are read without an error and a script is still
  open after the last line, the load succeeds; the table returned is the one built so
  far, it has the open script among its keys, and it is the table that the same
  text followed by a closing tag gives.
\<close>

theorem unterminated_script_retained:
  assumes "load_lines ([], []) 1 (file_lines contents) = Inr (scripts, s_name)"
    and "s_name \<noteq> []"
  shows "load_text contents = Inr scripts
       \<and> s_name \<in> set (map fst scripts)
       \<and> load_lines ([], []) 1 (file_lines contents @ [''---'']) = Inr (scripts, [])"
proof -
  have res: "load_text contents = Inr scripts"
    using assms(1) by (simp add: load_text_def)
  have key: "s_name \<in> set (map fst scripts)"
    using load_lines_open_key[OF assms(1)] assms(2) by simp
  have t: "temp_of ''---'' = ''---''" by code_simp
  have "process_line (scripts, s_name) (n, ''---'') = Inr (scripts, [])" for n
    using assms(2) by (simp add: process_line_def t contains_prefix_iff)
  then have "load_lines ([], []) 1 (file_lines contents @ [''---'']) = Inr (scripts, [])"
    using assms(1) by (simp add: load_lines_append)
  with res key show ?thesis by simp
qed

theorem unterminated_script_retained_witness:
  "load_lines ([], []) 1
     (file_lines (''---A'' @ [CHR 0x0A] @ ''5,move,'' @ CHR 0x22 # ''10,20'' @ [CHR 0x22, CHR 0x0A]))
     = Inr ([(''A'', [(5, ''move'', ''10,20'')])], ''A'')
   \<and> ''A'' \<noteq> []
   \<and> load_text (''---A'' @ [CHR 0x0A] @ ''5,move,'' @ CHR 0x22 # ''10,20'' @ [CHR 0x22, CHR 0x0A])
     = Inr [(''A'', [(5, ''move'', ''10,20'')])]
   \<and> load_lines ([], []) 1
     (file_lines (''---A'' @ [CHR 0x0A] @ ''5,move,'' @ CHR 0x22 # ''10,20'' @ [CHR 0x22, CHR 0x0A])
        @ [''---''])
     = Inr ([(''A'', [(5, ''move'', ''10,20'')])], [])"
proof -
  let ?text = "''---A'' @ [CHR 0x0A] @ ''5,move,'' @ CHR 0x22 # ''10,20'' @ [CHR 0x22, CHR 0x0A]"
  have h: "load_lines ([], []) 1 (file_lines ?text) = Inr ([(''A'', [(5, ''move'', ''10,20'')])], ''A'')"
    by code_simp
  have o: "''A'' \<noteq> []" by simp
  from unterminated_script_retained[OF h o] h o show ?thesis by simp
qed

text \<open>
  Claim C10. While no script is open, a line that does not begin with \<^verbatim>\<open>---\<close> after
  stripping leaves the table and the state as they are and is no error; any number of
  such lines only advances the line count for the lines that follow.
\<close>

theorem lines_outside_scripts_skipped:
  assumes "\<forall>l\<in>set junk. \<not> contains_prefix ''---'' (temp_of l)"
  shows "(\<forall>l\<in>set junk. \<forall>k. process_line (scripts, []) (k, l) = Inr (scripts, []))
       \<and> load_lines (scripts, []) n junk = Inr (scripts, [])
       \<and> load_lines (scripts, []) n (junk @ post) =
           load_lines (scripts, []) (n + length junk) post"
proof -
  have one: "process_line (scripts, []) (k, l) = Inr (scripts, [])"
    if "\<not> contains_prefix ''---'' (temp_of l)" for k l
    using that by (simp add: process_line_def)
  have all: "load_lines (scripts, []) n junk = Inr (scripts, [])"
    using assms by (induction junk arbitrary: n) (simp_all add: one)
  then have "load_lines (scripts, []) n (junk @ post) =
           load_lines (scripts, []) (n + length junk) post"
    by (simp add: load_lines_append)
  with one all assms show ?thesis by blast
qed

theorem lines_outside_scripts_skipped_witness:
  "\<not> contains_prefix ''---'' (temp_of (''hello, world'' @ [CHR 0x0A]))
   \<and> \<not> contains_prefix ''---'' (temp_of [CHR 0x0A])
   \<and> \<not> contains_prefix ''---'' (temp_of (''12,press,'' @ CHR 0x22 # ''---'' @ [CHR 0x22, CHR 0x0A]))
   \<and> process_line ([(''A'', [])], []) (7, ''hello, world'' @ [CHR 0x0A]) = Inr ([(''A'', [])], [])
   \<and> load_lines ([(''A'', [])], []) 3
        ([''hello, world'' @ [CHR 0x0A], [CHR 0x0A],
          ''12,press,'' @ CHR 0x22 # ''---'' @ [CHR 0x22, CHR 0x0A]] @ [''---B'' @ [CHR 0x0A]])
     = Inr ([(''A'', []), (''B'', [])], ''B'')"
proof -
  let ?j1 = "''hello, world'' @ [CHR 0x0A]"
  let ?j2 = "[CHR 0x0A]"
  let ?j3 = "''12,press,'' @ CHR 0x22 # ''---'' @ [CHR 0x22, CHR 0x0A]"
  let ?junk = "[?j1, ?j2, ?j3]"
  have n1: "\<not> contains_prefix ''---'' (temp_of ?j1)"
    and n2: "\<not> contains_prefix ''---'' (temp_of ?j2)"
    and n3: "\<not> contains_prefix ''---'' (temp_of ?j3)"
    by code_simp+
  then have h: "\<forall>l\<in>set ?junk. \<not> contains_prefix ''---'' (temp_of l)"
    by simp
  note T = lines_outside_scripts_skipped[OF h, of "[(''A'', [])]" 3 "[''---B'' @ [CHR 0x0A]]"]
  from T have p: "process_line ([(''A'', [])], []) (7, ?j1) = Inr ([(''A'', [])], [])"
    by simp
  have "load_lines ([(''A'', [])], []) (3 + length ?junk) [''---B'' @ [CHR 0x0A]]
      = Inr ([(''A'', []), (''B'', [])], ''B'')"
    by code_simp
  with T have l: "load_lines ([(''A'', [])], []) 3 (?junk @ [''---B'' @ [CHR 0x0A]])
      = Inr ([(''A'', []), (''B'', [])], ''B'')"
    by simp
  from n1 n2 n3 p l show ?thesis by blast
qed

section \<open>Facts about the backend and the handlers\<close>

lemma fold_keyboard_hold:
  "fold keyboard_hold codes w = w\<lparr>events := events w @ map (\<lambda>k. KeyboardInput k 0) codes\<rparr>"
  by (induction codes arbitrary: w) (simp_all add: keyboard_hold_def send_input_def)

lemma fold_keyboard_release:
  "fold keyboard_release codes w =
     w\<lparr>events := events w @ map (\<lambda>k. KeyboardInput k KEY_EVENT_RELEASE) codes\<rparr>"
  by (induction codes arbitrary: w) (simp_all add: keyboard_release_def send_input_def)

lemma resolve_keys_eq:
  "resolve_keys keys handled_keys key_codes =
     (if (\<forall>key\<in>set keys. get_hex_code key \<noteq> None) \<and> distinct (key_codes_of keys)
         \<and> set (key_codes_of keys) \<inter> handled_keys = {}
      then Some (key_codes @ key_codes_of keys) else None)"
proof (induction keys arbitrary: handled_keys key_codes)
  case Nil
  then show ?case by (simp add: key_codes_of_def)
next
  case (Cons key keys)
  show ?case
  proof (cases "get_hex_code key")
    case None
    then show ?thesis by simp
  next
    case (Some key_code)
    show ?thesis
    proof (cases "key_code \<in> handled_keys")
      case True
      with Some show ?thesis by (auto simp: key_codes_of_def)
    next
      case False
      with Some Cons.IH[of "insert key_code handled_keys" "key_codes @ [key_code]"]
      show ?thesis by (auto simp: key_codes_of_def)
    qed
  qed
qed

lemma keyboard_press_events:
  "keyboard_press key w =
     (case get_hex_code key of
        None \<Rightarrow> (False, w)
      | Some key_code \<Rightarrow> (True, w\<lparr>events := events w @ press_events key_code\<rparr>))"
  by (simp add: keyboard_press_def keyboard_hold_def keyboard_release_def send_input_def
      sleep_def press_events_def split: option.splits)

lemma write_loop_eq:
  "write_loop sequence cs w =
     (dropWhile has_key cs = [],
      (if dropWhile has_key cs = [] then id
       else print_stderr (CouldNotWrite [hd (dropWhile has_key cs)] sequence))
        (w\<lparr>events := events w @
              concat (map (\<lambda>c. press_events (the (get_hex_code [c]))) (takeWhile has_key cs))\<rparr>))"
proof (induction cs arbitrary: w)
  case Nil
  then show ?case by simp
next
  case (Cons c cs)
  show ?case
  proof (cases "get_hex_code [c]")
    case None
    then have "\<not> has_key c" by (simp add: has_key_def)
    with None show ?thesis by (simp add: keyboard_press_events)
  next
    case (Some key_code)
    then have "has_key c" by (simp add: has_key_def)
    with Some show ?thesis
      by (simp add: keyboard_press_events Cons.IH)
  qed
qed

text \<open>The key table, built once.\<close>

lemma win_key_table:
  "win_key =
     [(''0'', 48), (''1'', 49), (''2'', 50), (''3'', 51), (''4'', 52),
      (''5'', 53), (''6'', 54), (''7'', 55), (''8'', 56), (''9'', 57),
      (''a'', 65), (''b'', 66), (''c'', 67), (''d'', 68), (''e'', 69),
      (''f'', 70), (''g'', 71), (''h'', 72), (''i'', 73), (''j'', 74),
      (''k'', 75), (''l'', 76), (''m'', 77), (''n'', 78), (''o'', 79),
      (''p'', 80), (''q'', 81), (''r'', 82), (''s'', 83), (''t'', 84),
      (''u'', 85), (''v'', 86), (''w'', 87), (''x'', 88), (''y'', 89),
      (''z'', 90), (''A'', 65), (''B'', 66), (''C'', 67), (''D'', 68),
      (''E'', 69), (''F'', 70), (''G'', 71), (''H'', 72), (''I'', 73),
      (''J'', 74), (''K'', 75), (''L'', 76), (''M'', 77), (''N'', 78),
      (''O'', 79), (''P'', 80), (''Q'', 81), (''R'', 82), (''S'', 83),
      (''T'', 84), (''U'', 85), (''V'', 86), (''W'', 87), (''X'', 88),
      (''Y'', 89), (''Z'', 90), (''F1'', 112), (''F2'', 113), (''F3'', 114),
      (''F4'', 115), (''F5'', 116), (''F6'', 117), (''F7'', 118), (''F8'', 119),
      (''F9'', 120), (''F10'', 121), (''F11'', 122), (''F12'', 123), (''F13'', 124),
      (''F14'', 125), (''F15'', 126), (''F16'', 127), (''F17'', 128), (''F18'', 129),
      (''F19'', 130), (''F20'', 131), (''F21'', 132), (''F22'', 133), (''F23'', 134),
      (''F24'', 135), (''backspace'', 8), (''tab'', 9), (''enter'', 13), (''shift'', 16),
      (''ctrl'', 17), (''alt'', 18), (''pause'', 19), (''caps'', 20), (''esc'', 27),
      (''space'', 32), (''page-up'', 33), (''page-down'', 34), (''end'', 35), (''home'', 36),
      (''left'', 37), (''up'', 38), (''right'', 39), (''down'', 40), (''select'', 41),
      (''print'', 42), (''execute'', 43), (''prtscn'', 44), (''insert'', 45), (''delete'', 46),
      (''win'', 91), (''vol-mute'', 173), (''vol-down'', 174), (''vol-up'', 175), (''media-next'', 176),
      (''media-prev'', 177), (''media-stop'', 178), (''media_pp'', 179)]"
  by code_simp

declare win_key_table [code]

lemma hex_code_examples:
  "get_hex_code ''a'' = Some 65" "get_hex_code ''A'' = Some 65" "get_hex_code ''b'' = Some 66"
  "get_hex_code ''9'' = Some 57" "get_hex_code ''ctrl'' = Some 17" "get_hex_code ''alt'' = Some 18"
  "get_hex_code ''delete'' = Some 46" "get_hex_code ''!'' = None" "get_hex_code ''nokey'' = None"
  "get_hex_code [CHR 0x5C, CHR ''a''] = None"
  by code_simp+

section \<open>The claims about the handlers and the executor\<close>

text \<open>
  Claim C5, as amended. The press handler removes the spaces of the sequence (the
  spaces only: a backslash stays part of its key identifier) and splits the rest at
  the plus signs. When every identifier has a key code and no two of them have the same
  key code, it holds the keys in the order given, waits the fixed time and releases
  them in the reverse order, and returns true. Otherwise it returns false and sends
  nothing.
\<close>

theorem press_combination:
  "press sequence w =
     (let keys = py_split (CHR ''+'') (filter (\<lambda>c. c \<noteq> CHR '' '') sequence);
          key_codes = key_codes_of keys
      in if (\<forall>key\<in>set keys. get_hex_code key \<noteq> None) \<and> distinct key_codes
         then (Inr (PyBool True),
               w\<lparr>events := events w @ map (\<lambda>k. KeyboardInput k 0) key_codes @ [Sleep timeout]
                              @ map (\<lambda>k. KeyboardInput k KEY_EVENT_RELEASE) (rev key_codes)\<rparr>)
         else (Inr (PyBool False), w))"
  by (simp add: press_def keyboard_press_combo_def remove_char_def resolve_keys_eq Let_def
      fold_keyboard_hold fold_keyboard_release sleep_def)

theorem press_combination_witness:
  "press ''ctrl + alt+delete'' example_world =
     (Inr (PyBool True),
      example_world\<lparr>events := [KeyboardInput 17 0, KeyboardInput 18 0, KeyboardInput 46 0, Sleep 5,
                               KeyboardInput 46 2, KeyboardInput 18 2, KeyboardInput 17 2]\<rparr>)
   \<and> press ''ctrl+ctrl'' example_world = (Inr (PyBool False), example_world)
   \<and> press ''ctrl+nokey'' example_world = (Inr (PyBool False), example_world)"
  using press_combination[of "''ctrl + alt+delete''" example_world]
    press_combination[of "''ctrl+ctrl''" example_world]
    press_combination[of "''ctrl+nokey''" example_world]
  by (simp add: key_codes_of_def hex_code_examples timeout_def KEY_EVENT_RELEASE_def
      example_world_def)

theorem press_combination_counterexample:
  "fst (press [CHR 0x5C, CHR ''a''] example_world) = Inr (PyBool False)
   \<and> fst (press ''a'' example_world) = Inr (PyBool True)
   \<and> get_hex_code ''a'' = Some 65 \<and> get_hex_code ''A'' = Some 65
   \<and> fst (press ''a+A'' example_world) = Inr (PyBool False)"
  by (simp add: press_def keyboard_press_combo_def remove_char_def resolve_keys_eq
      key_codes_of_def hex_code_examples)

text \<open>
  Claim C6. The write handler presses the characters of the sequence one by one, in
  order, as long as they have a key code. At the first character without one it prints
  that character and the sequence and returns false, and no later character is tried.
  It returns true exactly when every character has a key code, and then every
  character was pressed.
\<close>

theorem write_characters:
  "write sequence w =
     (let w' = w\<lparr>events := events w
                  @ concat (map (\<lambda>c. press_events (the (get_hex_code [c])))
                              (takeWhile has_key sequence))\<rparr>
      in case dropWhile has_key sequence of
           [] \<Rightarrow> (Inr (PyBool True), w')
         | c # rest \<Rightarrow> (Inr (PyBool False), print_stderr (CouldNotWrite [c] sequence) w'))
   \<and> (fst (write sequence w) = Inr (PyBool True) \<longleftrightarrow> (\<forall>c\<in>set sequence. has_key c))"
proof (cases "dropWhile has_key sequence")
  case Nil
  then have "\<forall>c\<in>set sequence. has_key c"
    by (simp add: dropWhile_eq_Nil_conv)
  with Nil show ?thesis
    by (simp add: write_def write_loop_eq Let_def del: dropWhile_eq_Nil_conv)
next
  case (Cons c rest)
  then have "\<not> (\<forall>c\<in>set sequence. has_key c)"
    by (metis dropWhile_eq_Nil_conv list.distinct(1))
  with Cons show ?thesis
    by (simp add: write_def write_loop_eq Let_def del: dropWhile_eq_Nil_conv)
qed

theorem write_characters_witness:
  "write ''a!9'' example_world =
     (Inr (PyBool False),
      example_world\<lparr>events := [KeyboardInput 65 0, Sleep 5, KeyboardInput 65 2],
                     stderr := [CouldNotWrite ''!'' ''a!9'']\<rparr>)
   \<and> write ''ab'' example_world =
     (Inr (PyBool True),
      example_world\<lparr>events := [KeyboardInput 65 0, Sleep 5, KeyboardInput 65 2,
                               KeyboardInput 66 0, Sleep 5, KeyboardInput 66 2]\<rparr>)"
  using write_characters[of "''a!9''" example_world] write_characters[of "''ab''" example_world]
  by (simp add: has_key_def hex_code_examples press_events_def timeout_def KEY_EVENT_RELEASE_def
      print_stderr_def example_world_def)

text \<open>
  Claim C7 fails on the code in its first half: with an argument that is not a digit
  string, the move handler prints its diagnostic and returns \<^verbatim>\<open>None\<close>, not
  \<^verbatim>\<open>False\<close>; the backend is not called.
\<close>

theorem move_returns_none:
  "\<not> isdigit x \<or> \<not> isdigit y \<Longrightarrow>
     move x y w = (Inr PyNone, print_stderr (MoveNotInteger x y) w)
     \<and> events (snd (move x y w)) = events w"
  by (auto simp: move_def print_stderr_def)

theorem move_returns_none_witness:
  "\<not> isdigit ''a''
   \<and> move ''a'' ''1'' example_world =
       (Inr PyNone, example_world\<lparr>stderr := [MoveNotInteger ''a'' ''1'']\<rparr>)
   \<and> fst (move ''a'' ''1'' example_world) \<noteq> Inr (PyBool False)"
proof -
  have h: "\<not> isdigit ''a''" by code_simp
  then have "\<not> isdigit ''a'' \<or> \<not> isdigit ''1''" by simp
  from move_returns_none[OF this, of example_world] h show ?thesis
    by (simp add: print_stderr_def example_world_def)
qed

text \<open>
  With two strings of at most 4300 decimal digits the handler calls the backend with their values,
  and the backend refuses a coordinate beyond the width or the height of the screen.
\<close>

lemma move_decimal:
  assumes "decimal_string x" and "decimal_string y"
    and "length x \<le> int_max_str_digits" and "length y \<le> int_max_str_digits"
  shows "move x y w =
     (let (ok, w') = mouse_move (int (decimal_value x)) (int (decimal_value y)) False w
      in (Inr (PyBool ok), w'))"
    and "int (decimal_value x) > screen_width_px w \<or> int (decimal_value y) > screen_height_px w
         \<Longrightarrow> move x y w = (Inr (PyBool False), w)"
  using assms
  by (auto simp: move_def py_int_def decimal_string_isdigit mouse_move_def)

text \<open>
  Claim C4 fails on the code for a line that begins with a quote: the quote at index 0
  does not switch the flag, so the white space of the first quoted group is removed
  and the flag is switched by the closing quote instead.
\<close>

theorem leading_quote_not_toggled:
  "remove_obsolete_characters (CHR 0x22) whitespace (CHR 0x22 # ''a b'' @ [CHR 0x22, CHR '' '', CHR ''c''])
     = CHR 0x22 # ''ab'' @ [CHR 0x22, CHR '' '', CHR ''c'']"
  by code_simp

text \<open>
  Claim C2, as amended. The executor runs the commands in order up to the first one it
  rejects: each of them sleeps its delay and then has its handler called, and what the
  handler returns does not stop the run. If no command is rejected the result is true.
  At the first rejected command the executor sleeps its delay, prints the rejection
  and returns false; its handler and the commands after it are not run. A delay of
  more than 9223372036854 milliseconds is not slept: the sleep raises OverflowError,
  and the run ends there with the exception, neither true nor false, as it does when a
  handler raises.
\<close>

theorem internal_execute_run:
  "internal_execute script w =
     (case run_commands (takeWhile structurally_ok script) w of
        (Inl e, w') \<Rightarrow> (Inl e, w')
      | (Inr u, w') \<Rightarrow>
          (case dropWhile structurally_ok script of
             [] \<Rightarrow> (Inr True, w')
           | cmd # rest \<Rightarrow>
               (case time_sleep (fst cmd) w' of
                  Inl e \<Rightarrow> (Inl e, w')
                | Inr w'' \<Rightarrow> (Inr False, print_stderr (rejection cmd) w''))))"
proof (induction script arbitrary: w)
  case Nil
  then show ?case by simp
next
  case (Cons cmd script)
  obtain delay name raw_params where cmd: "cmd = (delay, name, raw_params)"
    by (cases cmd)
  show ?case
  proof (cases "structurally_ok cmd")
    case False
    then have tw: "takeWhile structurally_ok (cmd # script) = []"
      and dw: "dropWhile structurally_ok (cmd # script) = cmd # script"
      by simp_all
    show ?thesis
    proof (cases "time_sleep delay w")
      case (Inl e)
      then show ?thesis
        unfolding tw dw by (simp add: cmd)
    next
      case (Inr w1)
      with False show ?thesis
        unfolding tw dw
        by (auto simp: cmd structurally_ok_def rejection_def Let_def split: option.splits)
    qed
  next
    case True
    then obtain arity handler where
      reg: "map_of commands name = Some (arity, handler)"
      and ar: "length (py_split (CHR '','') raw_params) = arity"
      by (auto simp: cmd structurally_ok_def split: option.splits)
    have tw: "takeWhile structurally_ok (cmd # script) = cmd # takeWhile structurally_ok script"
      and dw: "dropWhile structurally_ok (cmd # script) = dropWhile structurally_ok script"
      using True by simp_all
    show ?thesis
    proof (cases "time_sleep delay w")
      case (Inl e)
      have "internal_execute (cmd # script) w = (Inl e, w)"
        using Inl by (simp add: cmd)
      moreover have "run_commands (cmd # takeWhile structurally_ok script) w = (Inl e, w)"
        using Inl by (simp add: cmd)
      ultimately show ?thesis
        unfolding tw dw by simp
    next
      case slept: (Inr w1)
      obtain r w2 where h: "handler (py_split (CHR '','') raw_params) w1 = (r, w2)"
        by (cases "handler (py_split (CHR '','') raw_params) w1")
      show ?thesis
      proof (cases r)
        case (Inl e)
        have "internal_execute (cmd # script) w = (Inl e, w2)"
          using slept reg ar h Inl by (simp add: cmd Let_def)
        moreover have "run_commands (cmd # takeWhile structurally_ok script) w = (Inl e, w2)"
          using slept reg h Inl by (simp add: cmd)
        ultimately show ?thesis
          unfolding tw dw by simp
      next
        case (Inr v)
        have "internal_execute (cmd # script) w = internal_execute script w2"
          using slept reg ar h Inr by (simp add: cmd Let_def)
        moreover have "run_commands (cmd # takeWhile structurally_ok script) w =
            run_commands (takeWhile structurally_ok script) w2"
          using slept reg h Inr by (simp add: cmd)
        ultimately show ?thesis
          unfolding tw dw by (simp add: Cons.IH)
      qed
    qed
  qed
qed

theorem internal_execute_run_witness:
  "internal_execute
     [(0, ''press'', ''a''), (5, ''press'', ''nokey''), (1, ''move'', ''10''), (0, ''press'', ''b'')]
     example_world =
     (Inr False,
      example_world\<lparr>events := [Sleep 0, KeyboardInput 65 0, Sleep 5, KeyboardInput 65 2,
                               Sleep 5, Sleep 1],
                     stderr := [WrongParameterCount ''move'' 2 1]\<rparr>)
   \<and> internal_execute [(0, ''press'', ''nokey''), (3, ''write'', ''b'')] example_world =
     (Inr True,
      example_world\<lparr>events := [Sleep 0, Sleep 3, KeyboardInput 66 0, Sleep 5,
                               KeyboardInput 66 2]\<rparr>)
   \<and> internal_execute
       [(9223372036854, ''press'', ''a''), (9223372036855, ''press'', ''b''), (0, ''press'', ''a'')]
       example_world =
     (Inl OverflowError,
      example_world\<lparr>events := [Sleep 9223372036854, KeyboardInput 65 0, Sleep 5,
                               KeyboardInput 65 2]\<rparr>)"
proof -
  let ?s1 = "[(0, ''press'', ''a''), (5, ''press'', ''nokey''), (1::nat, ''move'', ''10''),
              (0, ''press'', ''b'')]"
  let ?s2 = "[(0::nat, ''press'', ''nokey''), (3, ''write'', ''b'')]"
  let ?s3 = "[(9223372036854::nat, ''press'', ''a''), (9223372036855, ''press'', ''b''),
              (0, ''press'', ''a'')]"
  let ?w1 = "example_world\<lparr>events := [Sleep 0, KeyboardInput 65 0, Sleep 5, KeyboardInput 65 2,
                               Sleep 5, Sleep 1],
                     stderr := [WrongParameterCount ''move'' 2 1]\<rparr>"
  let ?w2 = "example_world\<lparr>events := [Sleep 0, Sleep 3, KeyboardInput 66 0, Sleep 5,
                               KeyboardInput 66 2]\<rparr>"
  let ?w3 = "example_world\<lparr>events := [Sleep 9223372036854, KeyboardInput 65 0, Sleep 5,
                               KeyboardInput 65 2]\<rparr>"
  have e1: "(case run_commands (takeWhile structurally_ok ?s1) example_world of
        (Inl e, w') \<Rightarrow> (Inl e, w')
      | (Inr u, w') \<Rightarrow>
          (case dropWhile structurally_ok ?s1 of
             [] \<Rightarrow> (Inr True, w')
           | cmd # rest \<Rightarrow>
               (case time_sleep (fst cmd) w' of
                  Inl e \<Rightarrow> (Inl e, w')
                | Inr w'' \<Rightarrow> (Inr False, print_stderr (rejection cmd) w''))))
      = (Inr False, ?w1)"
    by (simp add: structurally_ok_def rejection_def commands_def time_sleep_def max_sleep_ms_def
        sleep_def press_def write_def keyboard_press_combo_def keyboard_press_def remove_char_def
        hex_code_examples keyboard_hold_def keyboard_release_def send_input_def print_stderr_def
        timeout_def KEY_EVENT_RELEASE_def example_world_def Let_def)
  have e2: "(case run_commands (takeWhile structurally_ok ?s2) example_world of
        (Inl e, w') \<Rightarrow> (Inl e, w')
      | (Inr u, w') \<Rightarrow>
          (case dropWhile structurally_ok ?s2 of
             [] \<Rightarrow> (Inr True, w')
           | cmd # rest \<Rightarrow>
               (case time_sleep (fst cmd) w' of
                  Inl e \<Rightarrow> (Inl e, w')
                | Inr w'' \<Rightarrow> (Inr False, print_stderr (rejection cmd) w''))))
      = (Inr True, ?w2)"
    by (simp add: structurally_ok_def rejection_def commands_def time_sleep_def max_sleep_ms_def
        sleep_def press_def write_def keyboard_press_combo_def keyboard_press_def remove_char_def
        hex_code_examples keyboard_hold_def keyboard_release_def send_input_def print_stderr_def
        timeout_def KEY_EVENT_RELEASE_def example_world_def Let_def)
  have e3: "(case run_commands (takeWhile structurally_ok ?s3) example_world of
        (Inl e, w') \<Rightarrow> (Inl e, w')
      | (Inr u, w') \<Rightarrow>
          (case dropWhile structurally_ok ?s3 of
             [] \<Rightarrow> (Inr True, w')
           | cmd # rest \<Rightarrow>
               (case time_sleep (fst cmd) w' of
                  Inl e \<Rightarrow> (Inl e, w')
                | Inr w'' \<Rightarrow> (Inr False, print_stderr (rejection cmd) w''))))
      = (Inl OverflowError, ?w3)"
    by (simp add: structurally_ok_def rejection_def commands_def time_sleep_def max_sleep_ms_def
        sleep_def press_def write_def keyboard_press_combo_def keyboard_press_def remove_char_def
        hex_code_examples keyboard_hold_def keyboard_release_def send_input_def print_stderr_def
        timeout_def KEY_EVENT_RELEASE_def example_world_def Let_def)
  have r1: "internal_execute ?s1 example_world = (Inr False, ?w1)"
    by (rule trans[OF internal_execute_run e1])
  have r2: "internal_execute ?s2 example_world = (Inr True, ?w2)"
    by (rule trans[OF internal_execute_run e2])
  have r3: "internal_execute ?s3 example_world = (Inl OverflowError, ?w3)"
    by (rule trans[OF internal_execute_run e3])
  from r1 r2 r3 show ?thesis by blast
qed

text \<open>
  The claim as it was stated fails for a delay that \<^verbatim>\<open>time.sleep\<close> refuses: the
  command is one the executor does not reject, but nothing is slept, no handler is
  called and the run has no result.
\<close>

theorem internal_execute_run_counterexample:
  "structurally_ok (9223372036855, ''press'', ''a'')
   \<and> internal_execute [(9223372036855, ''press'', ''a'')] example_world
       = (Inl OverflowError, example_world)"
  by (simp add: structurally_ok_def commands_def time_sleep_def max_sleep_ms_def)

text \<open>
  Claim C8. When the executor holds no table, or a table (empty or not) without the
  script name, \<^verbatim>\<open>execute\<close> prints its diagnostic and returns false: nothing is
  slept and nothing is sent, the events are those before the call.
\<close>

theorem execute_unknown_script:
  assumes "scripts = None \<or> (\<exists>table. scripts = Some table \<and> script_name \<notin> set (map fst table))"
  shows "execute scripts script_name w = (Inr False, print_stderr (NoScriptLoaded script_name) w)
       \<and> events (snd (execute scripts script_name w)) = events w"
  using assms by (auto simp: execute_def print_stderr_def)

theorem execute_unknown_script_witness:
  "execute None ''A'' example_world =
     (Inr False, example_world\<lparr>stderr := [NoScriptLoaded ''A'']\<rparr>)
   \<and> execute (Some []) ''A'' example_world =
     (Inr False, example_world\<lparr>stderr := [NoScriptLoaded ''A'']\<rparr>)
   \<and> execute (Some [(''A'', [(0, ''press'', ''a'')])]) ''B'' example_world =
     (Inr False, example_world\<lparr>stderr := [NoScriptLoaded ''B'']\<rparr>)
   \<and> events (snd (execute (Some [(''A'', [(0, ''press'', ''a'')])]) ''B'' example_world)) = []"
  using execute_unknown_script[of None "''A''" example_world]
    execute_unknown_script[of "Some []" "''A''" example_world]
    execute_unknown_script[of "Some [(''A'', [(0, ''press'', ''a'')])]" "''B''" example_world]
  by (simp add: print_stderr_def example_world_def)

end
